theory Spec2Isabelle
  imports Complex_Main "HOL-Library.Word"
begin

section \<open>Scalars returned by the numerical framework\<close>

text \<open>
  \<^verbatim>\<open>sess.run\<close> of a scalar tensor returns a float. What the trainer does with such a
  value is compare it (\<^verbatim>\<open>valid_loss < best_valid_loss\<close>, against \<^verbatim>\<open>float("inf")\<close>), add it to
  an accumulator and divide the accumulator by an integer. A float is one of the special
  values of IEEE arithmetic or a finite one, taken as the real number it denotes.
\<close>

datatype pyfloat = Finite real | PosInf | NegInf | NaN

text \<open>The comparison \<^verbatim>\<open>a < b\<close>: false whenever an operand is NaN.\<close>

fun float_lt :: "pyfloat \<Rightarrow> pyfloat \<Rightarrow> bool" where
  "float_lt (Finite a) (Finite b) = (a < b)"
| "float_lt (Finite a) PosInf = True"
| "float_lt NegInf (Finite b) = True"
| "float_lt NegInf PosInf = True"
| "float_lt _ _ = False"

text \<open>The comparison \<^verbatim>\<open>a <= b\<close>.\<close>

fun float_le :: "pyfloat \<Rightarrow> pyfloat \<Rightarrow> bool" where
  "float_le (Finite a) (Finite b) = (a \<le> b)"
| "float_le (Finite a) PosInf = True"
| "float_le NegInf (Finite b) = True"
| "float_le NegInf PosInf = True"
| "float_le PosInf PosInf = True"
| "float_le NegInf NegInf = True"
| "float_le _ _ = False"

text \<open>
  Arithmetic on floats is not arithmetic on reals: an operation on finite operands
  returns its exact result rounded to the float format. The rounding \<open>rnd\<close> of the
  format, from the exact result to the float returned (the nearest float, an infinity
  beyond the format's range), is an argument of the operations: which format the
  accumulator of \<^verbatim>\<open>get_accuracy\<close> has, single or double precision, depends on the NumPy
  release, and a theorem that needs a property of the rounding has it as a hypothesis.
\<close>

text \<open>The sum \<^verbatim>\<open>a + b\<close>.\<close>

fun float_add :: "(real \<Rightarrow> pyfloat) \<Rightarrow> pyfloat \<Rightarrow> pyfloat \<Rightarrow> pyfloat" where
  "float_add rnd NaN _ = NaN"
| "float_add rnd _ NaN = NaN"
| "float_add rnd PosInf NegInf = NaN"
| "float_add rnd NegInf PosInf = NaN"
| "float_add rnd PosInf _ = PosInf"
| "float_add rnd _ PosInf = PosInf"
| "float_add rnd NegInf _ = NegInf"
| "float_add rnd _ NegInf = NegInf"
| "float_add rnd (Finite a) (Finite b) = rnd (a + b)"

text \<open>
  The quotient \<^verbatim>\<open>a / b\<close> of two floats, a zero divisor as NumPy treats it (the sign of a
  zero is not modelled).
\<close>

fun float_div :: "(real \<Rightarrow> pyfloat) \<Rightarrow> pyfloat \<Rightarrow> pyfloat \<Rightarrow> pyfloat" where
  "float_div rnd (Finite a) (Finite b) =
     (if b = 0 then (if a = 0 then NaN else if 0 < a then PosInf else NegInf)
      else rnd (a / b))"
| "float_div rnd (Finite a) PosInf = Finite 0"
| "float_div rnd (Finite a) NegInf = Finite 0"
| "float_div rnd PosInf (Finite b) = (if 0 \<le> b then PosInf else NegInf)"
| "float_div rnd NegInf (Finite b) = (if 0 \<le> b then NegInf else PosInf)"
| "float_div rnd _ _ = NaN"

text \<open>
  The quotient \<^verbatim>\<open>a / n\<close> of a float by a Python integer: the integer is converted to the
  float format, then the floats are divided.
\<close>

definition float_div_int :: "(real \<Rightarrow> pyfloat) \<Rightarrow> pyfloat \<Rightarrow> int \<Rightarrow> pyfloat" where
  "float_div_int rnd a n = float_div rnd a (rnd (real_of_int n))"

text \<open>\<^verbatim>\<open>range(n)\<close> for a Python integer: empty when \<open>n \<le> 0\<close>.\<close>

definition py_range :: "int \<Rightarrow> nat list" where
  "py_range n = [0 ..< nat n]"

section \<open>Errors and outcomes\<close>

text \<open>
  Errors raised inside a call of the framework (\<^verbatim>\<open>sess.run\<close>, \<^verbatim>\<open>saver.restore\<close>,
  \<^verbatim>\<open>saver.save\<close>): an iterator at the end of its sequence, a variable or iterator used
  before its initializer ran, and a restore from a prefix under which no snapshot is
  stored. The last one is named by what happened and not by a Python class: which class
  \<^verbatim>\<open>saver.restore\<close> raises then (\<^verbatim>\<open>NotFoundError\<close>, or the builtin \<^verbatim>\<open>ValueError\<close> before
  any operation runs) depends on the TensorFlow release.
\<close>

datatype tf_error = OutOfRangeError | FailedPreconditionError | RestoreFailed

datatype error = AssertionError | ZeroDivisionError | ValueError | TfError tf_error

text \<open>
  A call either returns a value or raises; in both cases it leaves a state behind
  (what it did before raising is not undone).
\<close>

datatype ('a, 's) outcome = Return 'a 's | Raise error 's

fun state_of :: "('a, 's) outcome \<Rightarrow> 's" where
  "state_of (Return v s) = s"
| "state_of (Raise e s) = s"

fun raised :: "('a, 's) outcome \<Rightarrow> error option" where
  "raised (Return v s) = None"
| "raised (Raise e s) = Some e"

fun returned :: "('a, 's) outcome \<Rightarrow> 'a option" where
  "returned (Return v s) = Some v"
| "returned (Raise e s) = None"

section \<open>The checkpoint directory and the session\<close>

text \<open>
  The checkpoint directory \<^verbatim>\<open>save_dir\<close>: what \<^verbatim>\<open>os.listdir\<close> returns, the parameters
  stored under the prefix \<^verbatim>\<open>save_dir/best_validation\<close> (none when nothing was saved
  there), and the number of snapshot writes the directory has received. The constructor
  creates the directory, so it exists whenever a method runs.
\<close>

record 'p checkpoint_store =
  listing :: "string list"
  snapshot :: "'p option"
  writes :: nat

text \<open>
  A session holds the values of the graph's variables and the positions of the two
  iterators; each is unset until its initializer has run. Every public method opens a
  session of its own.
\<close>

record 'p session =
  variables :: "'p option"
  train_pos :: "nat option"
  valid_pos :: "nat option"

definition new_session :: "'p session" where
  "new_session = \<lparr>variables = None, train_pos = None, valid_pos = None\<rparr>"

text \<open>
  The collaborators the graph is built from (\<^verbatim>\<open>build_graph\<close>), as the functions they
  compute: the values \<^verbatim>\<open>tf.global_variables_initializer()\<close> assigns, the sequences
  of batches the two iterators produce after their initializers ran (\<open>None\<close> past the
  end), what one run of \<^verbatim>\<open>[update_weights, tf_train_loss]\<close> does to the parameters on a
  batch and the loss it fetches, and the values of the loss, accuracy and prediction
  tensors for given parameters. With them comes the rounding of the float format in
  which Python accumulates and divides the values fetched.
\<close>

record ('p, 'b, 'x) framework =
  float_round :: "real \<Rightarrow> pyfloat"
  fresh_variables :: "'p"
  train_batch :: "nat \<Rightarrow> 'b option"
  valid_batch :: "nat \<Rightarrow> 'b option"
  optimizer_step :: "'p \<Rightarrow> 'b \<Rightarrow> 'p \<times> pyfloat"
  train_loss_of :: "'p \<Rightarrow> 'b \<Rightarrow> pyfloat"
  valid_loss_of :: "'p \<Rightarrow> 'b \<Rightarrow> pyfloat"
  valid_accuracy_of :: "'p \<Rightarrow> 'b \<Rightarrow> pyfloat"
  softmax_of :: "'p \<Rightarrow> 'x \<Rightarrow> pyfloat list list"

text \<open>The trainer's own attributes that its methods read (\<^verbatim>\<open>__init__\<close>).\<close>

record trainer =
  epochs :: int
  iterations :: int
  show_step :: int

subsection \<open>Graph elements, as what \<^verbatim>\<open>sess.run\<close> of them does to a session\<close>

definition iterator_train_initializer :: "'p session \<Rightarrow> 'p session" where
  "iterator_train_initializer ss = ss\<lparr>train_pos := Some 0\<rparr>"

definition iterator_valid_initializer :: "'p session \<Rightarrow> 'p session" where
  "iterator_valid_initializer ss = ss\<lparr>valid_pos := Some 0\<rparr>"

definition global_variables_initializer ::
  "('p, 'b, 'x) framework \<Rightarrow> 'p session \<Rightarrow> 'p session" where
  "global_variables_initializer fw ss = ss\<lparr>variables := Some (fresh_variables fw)\<rparr>"

text \<open>\<^verbatim>\<open>self.tf_train_loss\<close>: takes the next training batch, leaves the parameters.\<close>

definition tf_train_loss ::
  "('p, 'b, 'x) framework \<Rightarrow> 'p session \<Rightarrow> tf_error + (pyfloat \<times> 'p session)" where
  "tf_train_loss fw ss =
     (case variables ss of
        None \<Rightarrow> Inl FailedPreconditionError
      | Some p \<Rightarrow>
          (case train_pos ss of
             None \<Rightarrow> Inl FailedPreconditionError
           | Some k \<Rightarrow>
               (case train_batch fw k of
                  None \<Rightarrow> Inl OutOfRangeError
                | Some b \<Rightarrow> Inr (train_loss_of fw p b, ss\<lparr>train_pos := Some (Suc k)\<rparr>))))"

text \<open>
  \<^verbatim>\<open>[self.update_weights, self.tf_train_loss]\<close> in one run: one training batch is taken,
  the optimizer updates the parameters on it and the loss of that batch is fetched.
\<close>

definition update_weights_and_loss ::
  "('p, 'b, 'x) framework \<Rightarrow> 'p session \<Rightarrow> tf_error + (pyfloat \<times> 'p session)" where
  "update_weights_and_loss fw ss =
     (case variables ss of
        None \<Rightarrow> Inl FailedPreconditionError
      | Some p \<Rightarrow>
          (case train_pos ss of
             None \<Rightarrow> Inl FailedPreconditionError
           | Some k \<Rightarrow>
               (case train_batch fw k of
                  None \<Rightarrow> Inl OutOfRangeError
                | Some b \<Rightarrow>
                    Inr (snd (optimizer_step fw p b),
                         ss\<lparr>variables := Some (fst (optimizer_step fw p b)),
                            train_pos := Some (Suc k)\<rparr>))))"

text \<open>\<^verbatim>\<open>self.tf_valid_loss\<close>: takes the next validation batch.\<close>

definition tf_valid_loss ::
  "('p, 'b, 'x) framework \<Rightarrow> 'p session \<Rightarrow> tf_error + (pyfloat \<times> 'p session)" where
  "tf_valid_loss fw ss =
     (case variables ss of
        None \<Rightarrow> Inl FailedPreconditionError
      | Some p \<Rightarrow>
          (case valid_pos ss of
             None \<Rightarrow> Inl FailedPreconditionError
           | Some k \<Rightarrow>
               (case valid_batch fw k of
                  None \<Rightarrow> Inl OutOfRangeError
                | Some b \<Rightarrow> Inr (valid_loss_of fw p b, ss\<lparr>valid_pos := Some (Suc k)\<rparr>))))"

text \<open>\<^verbatim>\<open>self.valid_accuracy\<close>: takes the next validation batch.\<close>

definition valid_accuracy ::
  "('p, 'b, 'x) framework \<Rightarrow> 'p session \<Rightarrow> tf_error + (pyfloat \<times> 'p session)" where
  "valid_accuracy fw ss =
     (case variables ss of
        None \<Rightarrow> Inl FailedPreconditionError
      | Some p \<Rightarrow>
          (case valid_pos ss of
             None \<Rightarrow> Inl FailedPreconditionError
           | Some k \<Rightarrow>
               (case valid_batch fw k of
                  None \<Rightarrow> Inl OutOfRangeError
                | Some b \<Rightarrow>
                    Inr (valid_accuracy_of fw p b, ss\<lparr>valid_pos := Some (Suc k)\<rparr>))))"

text \<open>
  \<^verbatim>\<open>self.tf_prediction\<close> with the placeholder fed: reads the parameters, no iterator.
\<close>

definition tf_prediction ::
  "('p, 'b, 'x) framework \<Rightarrow> 'x \<Rightarrow> 'p session \<Rightarrow> tf_error + (pyfloat list list \<times> 'p session)" where
  "tf_prediction fw x ss =
     (case variables ss of
        None \<Rightarrow> Inl FailedPreconditionError
      | Some p \<Rightarrow> Inr (softmax_of fw p x, ss))"

subsection \<open>The saver\<close>

text \<open>The files one \<^verbatim>\<open>saver.save\<close> to the prefix \<^verbatim>\<open>best_validation\<close> leaves in the directory.\<close>

definition checkpoint_files :: "string list" where
  "checkpoint_files =
     [''checkpoint'', ''best_validation.index'',
      ''best_validation.data-00000-of-00001'', ''best_validation.meta'']"

text \<open>\<^verbatim>\<open>self.saver.save(sess=sess, save_path=self.save_path)\<close>.\<close>

definition saver_save :: "'p session \<Rightarrow> 'p checkpoint_store \<Rightarrow> tf_error + 'p checkpoint_store" where
  "saver_save ss st =
     (case variables ss of
        None \<Rightarrow> Inl FailedPreconditionError
      | Some p \<Rightarrow>
          Inr (st\<lparr>listing := List.union (listing st) checkpoint_files,
                  snapshot := Some p,
                  writes := Suc (writes st)\<rparr>))"

text \<open>\<^verbatim>\<open>self.saver.restore(sess=sess, save_path=self.save_path)\<close>.\<close>

definition saver_restore :: "'p checkpoint_store \<Rightarrow> 'p session \<Rightarrow> tf_error + 'p session" where
  "saver_restore st ss =
     (case snapshot st of
        None \<Rightarrow> Inl RestoreFailed
      | Some p \<Rightarrow> Inr (ss\<lparr>variables := Some p\<rparr>))"

section \<open>Accuracy evaluation\<close>

text \<open>
  Lines 138 to 142 of \<^verbatim>\<open>get_accuracy\<close>: the iterator's initializer runs in the new
  session, then the variables are initialized or restored, by the directory listing.
\<close>

definition accuracy_session ::
  "('p, 'b, 'x) framework \<Rightarrow> ('p session \<Rightarrow> 'p session) \<Rightarrow> 'p checkpoint_store \<Rightarrow>
     tf_error + 'p session" where
  "accuracy_session fw iterator_initializer st =
     (let ss = iterator_initializer new_session in
      if listing st = [] then Inr (global_variables_initializer fw ss)
      else saver_restore st ss)"

text \<open>The loop of lines 144 and 145: \<^verbatim>\<open>acc += sess.run(accuracy_tensor)\<close>.\<close>

fun accuracy_loop ::
  "(real \<Rightarrow> pyfloat) \<Rightarrow> ('p session \<Rightarrow> tf_error + (pyfloat \<times> 'p session)) \<Rightarrow> nat list \<Rightarrow>
     pyfloat \<Rightarrow> 'p session \<Rightarrow> tf_error + (pyfloat \<times> 'p session)" where
  "accuracy_loop rnd accuracy_tensor [] acc ss = Inr (acc, ss)"
| "accuracy_loop rnd accuracy_tensor (i # is) acc ss =
     (case accuracy_tensor ss of
        Inl e \<Rightarrow> Inl e
      | Inr (v, ss') \<Rightarrow> accuracy_loop rnd accuracy_tensor is (float_add rnd acc v) ss')"

text \<open>
  Lines 143 to 146, in a session that has been set up. The accumulator starts as the
  Python integer 0 and is a float after the first addition; the division
  \<^verbatim>\<open>acc / iterations\<close> raises for a zero divisor (then the loop has not run and \<^verbatim>\<open>acc\<close>
  is still the integer 0).
\<close>

definition average_runs ::
  "('p, 'b, 'x) framework \<Rightarrow> ('p session \<Rightarrow> tf_error + (pyfloat \<times> 'p session)) \<Rightarrow> int \<Rightarrow>
     'p session \<Rightarrow> error + pyfloat" where
  "average_runs fw accuracy_tensor n ss =
     (case accuracy_loop (float_round fw) accuracy_tensor (py_range n) (Finite 0) ss of
        Inl e \<Rightarrow> Inl (TfError e)
      | Inr (acc, ss') \<Rightarrow>
          if n = 0 then Inl ZeroDivisionError
          else Inr (float_div_int (float_round fw) acc n))"

text \<open>\<^verbatim>\<open>get_accuracy\<close>: the session is set up, then the runs are averaged in it.\<close>

definition get_accuracy ::
  "('p, 'b, 'x) framework \<Rightarrow> ('p session \<Rightarrow> 'p session) \<Rightarrow>
     ('p session \<Rightarrow> tf_error + (pyfloat \<times> 'p session)) \<Rightarrow> int \<Rightarrow> 'p checkpoint_store \<Rightarrow>
     (pyfloat, 'p checkpoint_store) outcome" where
  "get_accuracy fw iterator_initializer accuracy_tensor n st =
     (case accuracy_session fw iterator_initializer st of
        Inl e \<Rightarrow> Raise (TfError e) st
      | Inr ss \<Rightarrow>
          (case average_runs fw accuracy_tensor n ss of
             Inl e \<Rightarrow> Raise e st
           | Inr r \<Rightarrow> Return r st))"

text \<open>\<^verbatim>\<open>get_valid_accuracy(iterations=50)\<close>: \<open>None\<close> is the call that omits the argument.\<close>

definition get_valid_accuracy ::
  "('p, 'b, 'x) framework \<Rightarrow> int option \<Rightarrow> 'p checkpoint_store \<Rightarrow>
     (pyfloat, 'p checkpoint_store) outcome" where
  "get_valid_accuracy fw n_opt st =
     get_accuracy fw iterator_valid_initializer (valid_accuracy fw)
       (case n_opt of None \<Rightarrow> 50 | Some n \<Rightarrow> n) st"

section \<open>The training loop\<close>

text \<open>
  The state of a call of \<^verbatim>\<open>fit\<close>: the checkpoint directory, the call's session, the
  local \<^verbatim>\<open>best_valid_loss\<close> and what has been printed (one entry per progress line:
  epoch and step as printed, the training loss and the best validation loss; the
  formatting of the line is not modelled). \<open>valid_log\<close> is not a variable of the
  program: it records the values \<^verbatim>\<open>sess.run(self.tf_valid_loss)\<close> has returned in this
  call, oldest first, so that theorems can speak about them.
\<close>

record 'p fit_state =
  ckpt :: "'p checkpoint_store"
  sess :: "'p session"
  best_valid_loss :: pyfloat
  valid_log :: "pyfloat list"
  console :: "(nat \<times> nat \<times> pyfloat \<times> pyfloat) list"

text \<open>Lines 170 to 174: the local, the new session and the three initializers.\<close>

definition fit_setup :: "('p, 'b, 'x) framework \<Rightarrow> 'p checkpoint_store \<Rightarrow> 'p fit_state" where
  "fit_setup fw st =
     \<lparr>ckpt = st,
      sess = global_variables_initializer fw
               (iterator_valid_initializer (iterator_train_initializer new_session)),
      best_valid_loss = PosInf,
      valid_log = [],
      console = []\<rparr>"

text \<open>
  Lines 170 to 175: the setup and \<^verbatim>\<open>show_loss = sess.run(self.tf_train_loss)\<close>. The value
  fetched here is overwritten at line 180 before anything reads it.
\<close>

definition fit_start ::
  "('p, 'b, 'x) framework \<Rightarrow> 'p checkpoint_store \<Rightarrow> (unit, 'p fit_state) outcome" where
  "fit_start fw st =
     (case tf_train_loss fw (sess (fit_setup fw st)) of
        Inl e \<Rightarrow> Raise (TfError e) (fit_setup fw st)
      | Inr (show_loss, ss) \<Rightarrow> Return () ((fit_setup fw st)\<lparr>sess := ss\<rparr>))"

text \<open>Lines 182 to 187: the progress line, when \<^verbatim>\<open>verbose\<close>.\<close>

definition print_info :: "bool \<Rightarrow> nat \<Rightarrow> nat \<Rightarrow> pyfloat \<Rightarrow> 'p fit_state \<Rightarrow> 'p fit_state" where
  "print_info verbose epoch step show_loss s =
     (if verbose
      then s\<lparr>console := console s @ [(epoch + 1, step + 1, show_loss, best_valid_loss s)]\<rparr>
      else s)"

text \<open>
  Lines 188 to 192: one validation loss is fetched; when it is below the best one, the
  parameters are saved and the best one is replaced.
\<close>

definition validate ::
  "('p, 'b, 'x) framework \<Rightarrow> 'p fit_state \<Rightarrow> (unit, 'p fit_state) outcome" where
  "validate fw s =
     (case tf_valid_loss fw (sess s) of
        Inl e \<Rightarrow> Raise (TfError e) s
      | Inr (valid_loss, ss) \<Rightarrow>
          if float_lt valid_loss (best_valid_loss s) then
            (case saver_save ss (ckpt s) of
               Inl e \<Rightarrow>
                 Raise (TfError e) (s\<lparr>sess := ss, valid_log := valid_log s @ [valid_loss]\<rparr>)
             | Inr st \<Rightarrow>
                 Return () (s\<lparr>sess := ss, valid_log := valid_log s @ [valid_loss],
                              ckpt := st, best_valid_loss := valid_loss\<rparr>))
          else Return () (s\<lparr>sess := ss, valid_log := valid_log s @ [valid_loss]\<rparr>))"

text \<open>
  Lines 178 to 192, the body of the inner loop. \<^verbatim>\<open>step % self.show_step\<close> raises for a
  zero \<^verbatim>\<open>show_step\<close>; for any other one Python's remainder is that of \<open>mod\<close> on \<open>int\<close>.
\<close>

definition fit_step ::
  "('p, 'b, 'x) framework \<Rightarrow> trainer \<Rightarrow> bool \<Rightarrow> nat \<Rightarrow> nat \<Rightarrow> 'p fit_state \<Rightarrow>
     (unit, 'p fit_state) outcome" where
  "fit_step fw tr verbose epoch step s =
     (case update_weights_and_loss fw (sess s) of
        Inl e \<Rightarrow> Raise (TfError e) s
      | Inr (loss, ss) \<Rightarrow>
          if show_step tr = 0 then Raise ZeroDivisionError (s\<lparr>sess := ss\<rparr>)
          else if int step mod show_step tr = 0
          then validate fw (print_info verbose epoch step loss (s\<lparr>sess := ss\<rparr>))
          else Return () (s\<lparr>sess := ss\<rparr>))"

text \<open>The inner loop \<^verbatim>\<open>for step in range(self.iterations)\<close>, over the steps still to run.\<close>

fun fit_steps ::
  "('p, 'b, 'x) framework \<Rightarrow> trainer \<Rightarrow> bool \<Rightarrow> nat \<Rightarrow> nat list \<Rightarrow> 'p fit_state \<Rightarrow>
     (unit, 'p fit_state) outcome" where
  "fit_steps fw tr verbose epoch [] s = Return () s"
| "fit_steps fw tr verbose epoch (step # steps) s =
     (case fit_step fw tr verbose epoch step s of
        Raise e s' \<Rightarrow> Raise e s'
      | Return u s' \<Rightarrow> fit_steps fw tr verbose epoch steps s')"

text \<open>The outer loop \<^verbatim>\<open>for epoch in range(self.epochs)\<close>, over the epochs still to run.\<close>

fun fit_epochs ::
  "('p, 'b, 'x) framework \<Rightarrow> trainer \<Rightarrow> bool \<Rightarrow> nat list \<Rightarrow> 'p fit_state \<Rightarrow>
     (unit, 'p fit_state) outcome" where
  "fit_epochs fw tr verbose [] s = Return () s"
| "fit_epochs fw tr verbose (epoch # es) s =
     (case fit_steps fw tr verbose epoch (py_range (iterations tr)) s of
        Raise e s' \<Rightarrow> Raise e s'
      | Return u s' \<Rightarrow> fit_epochs fw tr verbose es s')"

text \<open>
  \<^verbatim>\<open>fit\<close>. The method returns nothing; the model returns the state in which the call
  ends, the closed session included, for the theorems to look at.
\<close>

definition fit ::
  "('p, 'b, 'x) framework \<Rightarrow> trainer \<Rightarrow> bool \<Rightarrow> 'p checkpoint_store \<Rightarrow>
     (unit, 'p fit_state) outcome" where
  "fit fw tr verbose st =
     (case fit_start fw st of
        Raise e s \<Rightarrow> Raise e s
      | Return u s \<Rightarrow> fit_epochs fw tr verbose (py_range (epochs tr)) s)"

section \<open>Prediction\<close>

text \<open>An array as the prediction path sees it: its element type and its contents.\<close>

datatype np_dtype = Bool8 | UInt8 | Int32 | Int64 | Float16 | Float32 | Float64

record 'x ndarray =
  dtype :: np_dtype
  contents :: "'x"

text \<open>
  \<^verbatim>\<open>predict_prob\<close>. The prediction tensor is a 32-bit float tensor, so the final
  \<^verbatim>\<open>astype(np.float32)\<close> leaves the fetched values as they are.
\<close>

definition predict_prob ::
  "('p, 'b, 'x) framework \<Rightarrow> 'x ndarray \<Rightarrow> 'p checkpoint_store \<Rightarrow>
     (pyfloat list list, 'p checkpoint_store) outcome" where
  "predict_prob fw img st =
     (if dtype img \<noteq> Float32 then Raise AssertionError st
      else
        (case (if listing st = [] then Inr (global_variables_initializer fw new_session)
               else saver_restore st new_session) of
           Inl e \<Rightarrow> Raise (TfError e) st
         | Inr ss \<Rightarrow>
             (case tf_prediction fw (contents img) ss of
                Inl e \<Rightarrow> Raise (TfError e) st
              | Inr (result, ss') \<Rightarrow> Return result st)))"

text \<open>
  \<^verbatim>\<open>np.argmax\<close> along one row, as NumPy computes it for floats: the index of the first
  occurrence of the maximum, a NaN counting as maximal; an empty row is an error.
  \<open>argmax_scan row i mp max_ind\<close> scans the rest of the row from index \<open>i\<close>, with the
  maximum \<open>mp\<close> found so far at index \<open>max_ind\<close>.
\<close>

fun argmax_scan :: "pyfloat list \<Rightarrow> nat \<Rightarrow> pyfloat \<Rightarrow> nat \<Rightarrow> nat" where
  "argmax_scan [] i mp max_ind = max_ind"
| "argmax_scan (x # xs) i mp max_ind =
     (if \<not> float_le x mp
      then (if x = NaN then i else argmax_scan xs (Suc i) x i)
      else argmax_scan xs (Suc i) mp max_ind)"

fun np_argmax :: "pyfloat list \<Rightarrow> error + nat" where
  "np_argmax [] = Inl ValueError"
| "np_argmax (x # xs) = Inr (if x = NaN then 0 else argmax_scan xs 1 x 0)"

text \<open>\<^verbatim>\<open>np.argmax(result, axis=1)\<close>: the argmax of every row.\<close>

fun np_argmax_axis1 :: "pyfloat list list \<Rightarrow> error + nat list" where
  "np_argmax_axis1 [] = Inr []"
| "np_argmax_axis1 (row # rows) =
     (case np_argmax row of
        Inl e \<Rightarrow> Inl e
      | Inr j \<Rightarrow>
          (case np_argmax_axis1 rows of
             Inl e \<Rightarrow> Inl e
           | Inr js \<Rightarrow> Inr (j # js)))"

text \<open>\<^verbatim>\<open>astype(np.int32)\<close> of an index: the low 32 bits.\<close>

definition astype_int32 :: "nat \<Rightarrow> 32 word" where
  "astype_int32 j = of_nat j"

text \<open>\<^verbatim>\<open>predict\<close>.\<close>

definition predict ::
  "('p, 'b, 'x) framework \<Rightarrow> 'x ndarray \<Rightarrow> 'p checkpoint_store \<Rightarrow>
     (32 word list, 'p checkpoint_store) outcome" where
  "predict fw img st =
     (case predict_prob fw img st of
        Raise e st' \<Rightarrow> Raise e st'
      | Return result st' \<Rightarrow>
          (case np_argmax_axis1 result of
             Inl e \<Rightarrow> Raise e st'
           | Inr js \<Rightarrow> Return (map astype_int32 js) st'))"

section \<open>Notions the properties are stated with\<close>

text \<open>
  The best validation loss seen, starting from \<open>b\<close>, after the losses of a list have
  been seen in order: a loss replaces the best one when it is strictly below it.
\<close>

fun best_seen :: "pyfloat \<Rightarrow> pyfloat list \<Rightarrow> pyfloat" where
  "best_seen b [] = b"
| "best_seen b (v # vs) = best_seen (if float_lt v b then v else b) vs"

text \<open>The number of losses of a list that are strictly below the best one seen before them.\<close>

fun strict_decreases :: "pyfloat \<Rightarrow> pyfloat list \<Rightarrow> nat" where
  "strict_decreases b [] = 0"
| "strict_decreases b (v # vs) =
     (if float_lt v b then Suc (strict_decreases v vs) else strict_decreases b vs)"

text \<open>Not above: equal, or strictly below.\<close>

definition not_above :: "pyfloat \<Rightarrow> pyfloat \<Rightarrow> bool" where
  "not_above a b \<longleftrightarrow> a = b \<or> float_lt a b"

text \<open>The values of \<open>n\<close> successive executions of a tensor from a session.\<close>

fun executions ::
  "('p session \<Rightarrow> tf_error + (pyfloat \<times> 'p session)) \<Rightarrow> nat \<Rightarrow> 'p session \<Rightarrow>
     tf_error + pyfloat list" where
  "executions t 0 ss = Inr []"
| "executions t (Suc n) ss =
     (case t ss of
        Inl e \<Rightarrow> Inl e
      | Inr (v, ss') \<Rightarrow>
          (case executions t n ss' of
             Inl e \<Rightarrow> Inl e
           | Inr vs \<Rightarrow> Inr (v # vs)))"

text \<open>
  The arithmetic mean of a list of floats as float arithmetic computes it: their sum,
  added up in order from 0, by their number.
\<close>

definition arithmetic_mean :: "(real \<Rightarrow> pyfloat) \<Rightarrow> pyfloat list \<Rightarrow> pyfloat" where
  "arithmetic_mean rnd vs =
     float_div_int rnd (foldl (float_add rnd) (Finite 0) vs) (int (length vs))"

text \<open>
  Two properties of the rounding of a float format. It is monotone: of two reals, the
  larger does not round to the smaller float. And the integers from 0 to \<open>n\<close> are floats
  of the format, so they round to themselves (in IEEE single precision every integer up
  to \<open>2 ^ 24\<close> is, in double precision every one up to \<open>2 ^ 53\<close>).
\<close>

definition monotone_rounding :: "(real \<Rightarrow> pyfloat) \<Rightarrow> bool" where
  "monotone_rounding rnd \<longleftrightarrow> (\<forall>x y. x \<le> y \<longrightarrow> float_le (rnd x) (rnd y))"

definition exact_up_to :: "(real \<Rightarrow> pyfloat) \<Rightarrow> nat \<Rightarrow> bool" where
  "exact_up_to rnd n \<longleftrightarrow> (\<forall>k \<le> n. rnd (real k) = Finite (real k))"

text \<open>A float in the interval from 0 to 1.\<close>

fun in_unit_interval :: "pyfloat \<Rightarrow> bool" where
  "in_unit_interval (Finite x) = (0 \<le> x \<and> x \<le> 1)"
| "in_unit_interval _ = False"

text \<open>
  Two states of a call of \<^verbatim>\<open>fit\<close> that differ at most in the checkpoint directory, and
  two outcomes that raise the same error or both return, in such states.
\<close>

definition same_but_ckpt :: "'p fit_state \<Rightarrow> 'p fit_state \<Rightarrow> bool" where
  "same_but_ckpt s1 s2 \<longleftrightarrow>
     sess s1 = sess s2 \<and> best_valid_loss s1 = best_valid_loss s2
     \<and> valid_log s1 = valid_log s2 \<and> console s1 = console s2"

definition same_run ::
  "(unit, 'p fit_state) outcome \<Rightarrow> (unit, 'p fit_state) outcome \<Rightarrow> bool" where
  "same_run a b \<longleftrightarrow>
     raised a = raised b \<and> returned a = returned b \<and> same_but_ckpt (state_of a) (state_of b)"

text \<open>
  The local \<^verbatim>\<open>best_valid_loss\<close> is the best of the validation losses fetched so far in
  the call, and the directory has received one write for each strict decrease among
  them, on top of the \<open>w0\<close> writes it had when the call began.
\<close>

definition tracker_inv :: "nat \<Rightarrow> 'p fit_state \<Rightarrow> bool" where
  "tracker_inv w0 s \<longleftrightarrow>
     best_valid_loss s = best_seen PosInf (valid_log s)
     \<and> writes (ckpt s) = w0 + strict_decreases PosInf (valid_log s)"

text \<open>
  Either no validation loss below \<open>+\<infinity>\<close> has been fetched yet, the local
  \<^verbatim>\<open>best_valid_loss\<close> is still \<open>+\<infinity>\<close> and the directory lists what it listed when the
  call began (\<open>l0\<close>), or such a loss has been fetched and the directory is not empty.
\<close>

definition saved_inv :: "string list \<Rightarrow> 'p fit_state \<Rightarrow> bool" where
  "saved_inv l0 s \<longleftrightarrow>
     (best_valid_loss s = PosInf \<and> (\<forall>v \<in> set (valid_log s). \<not> float_lt v PosInf)
        \<and> listing (ckpt s) = l0)
     \<or> (listing (ckpt s) \<noteq> [] \<and> (\<exists>v \<in> set (valid_log s). float_lt v PosInf))"

text \<open>A session in which the variables and both iterators have been initialized.\<close>

definition ready :: "'p session \<Rightarrow> bool" where
  "ready ss \<longleftrightarrow> variables ss \<noteq> None \<and> train_pos ss \<noteq> None \<and> valid_pos ss \<noteq> None"

section \<open>Concrete instances\<close>

text \<open>
  A rounding to run the definitions on: to the nearest multiple of \<open>2 ^ -10\<close>. In the
  runs below every sum (1, 3/2, 2, 3) and every quotient (3/2 by 3, 3 by 3) is such a
  multiple, so nothing is rounded, as nothing is in IEEE single or double precision.
\<close>

definition demo_round :: "real \<Rightarrow> pyfloat" where
  "demo_round x = Finite (real_of_int (round (x * 1024)) / 1024)"

text \<open>
  A small framework to run the definitions on: the parameters are an integer that every
  optimizer step increases, both iterators repeat for ever with the position as the
  batch, and the validation loss falls from 3 to 1 as the parameters grow and stays
  there. The validation accuracy is 1 on every batch for the parameters 7, and 1, 1/2
  and then 0 on the successive batches for any other parameters.
\<close>

definition demo_fw :: "(int, nat, nat) framework" where
  "demo_fw =
     \<lparr>float_round = demo_round,
      fresh_variables = 0,
      train_batch = (\<lambda>k. Some k),
      valid_batch = (\<lambda>k. Some k),
      optimizer_step = (\<lambda>p b. (p + 1, Finite (real b))),
      train_loss_of = (\<lambda>p b. Finite (real b)),
      valid_loss_of = (\<lambda>p b. if p < 3 then Finite (4 - real_of_int p) else Finite 1),
      valid_accuracy_of =
        (\<lambda>p b. if p = 7 \<or> b = 0 then Finite 1 else if b = 1 then Finite (1 / 2) else Finite 0),
      softmax_of = (\<lambda>p x. [[Finite (1 / 4), Finite (3 / 4)], [Finite (1 / 2), Finite (1 / 2)]])\<rparr>"

text \<open>The same framework with a validation loss that is NaN at every step.\<close>

definition nan_fw :: "(int, nat, nat) framework" where
  "nan_fw = demo_fw\<lparr>valid_loss_of := (\<lambda>p b. NaN)\<rparr>"

definition demo_trainer :: trainer where
  "demo_trainer = \<lparr>epochs = 2, iterations = 3, show_step = 2\<rparr>"

text \<open>
  The directory as the constructor leaves it on a first run, after a save of the
  parameters 7, and with nothing but a stray file.
\<close>

definition empty_store :: "int checkpoint_store" where
  "empty_store = \<lparr>listing = [], snapshot = None, writes = 0\<rparr>"

definition saved_store :: "int checkpoint_store" where
  "saved_store = \<lparr>listing = checkpoint_files, snapshot = Some 7, writes = 1\<rparr>"

definition stray_store :: "int checkpoint_store" where
  "stray_store = \<lparr>listing = [''notes.txt''], snapshot = None, writes = 0\<rparr>"

text \<open>
  The directory after a save and the removal of its files, and after a save with a stray
  file beside the files of the save.
\<close>

definition cleared_store :: "int checkpoint_store" where
  "cleared_store = \<lparr>listing = [], snapshot = None, writes = 1\<rparr>"

definition saved_and_stray_store :: "int checkpoint_store" where
  "saved_and_stray_store =
     \<lparr>listing = checkpoint_files @ [''notes.txt''], snapshot = Some 7, writes = 1\<rparr>"

text \<open>The state in which the loops begin, for this framework on the empty directory.\<close>

definition demo_started :: "int fit_state" where
  "demo_started =
     \<lparr>ckpt = empty_store,
      sess = \<lparr>variables = Some 0, train_pos = Some 1, valid_pos = Some 0\<rparr>,
      best_valid_loss = PosInf, valid_log = [], console = []\<rparr>"

text \<open>A framework whose model has no class: every row of probabilities is empty.\<close>

definition no_class_fw :: "(int, nat, nat) framework" where
  "no_class_fw = demo_fw\<lparr>softmax_of := (\<lambda>p x. [[]])\<rparr>"

section \<open>Accuracy evaluation: the division, the store, the mean\<close>

lemma accuracy_session_empty:
  "listing st = [] \<Longrightarrow>
     accuracy_session fw ii st = Inr ((ii new_session)\<lparr>variables := Some (fresh_variables fw)\<rparr>)"
  by (simp add: accuracy_session_def global_variables_initializer_def)

lemma accuracy_session_nonempty:
  "listing st \<noteq> [] \<Longrightarrow>
     accuracy_session fw ii st =
       (case snapshot st of
          None \<Rightarrow> Inl RestoreFailed
        | Some p \<Rightarrow> Inr ((ii new_session)\<lparr>variables := Some p\<rparr>))"
  by (simp add: accuracy_session_def saver_restore_def)

lemma get_accuracy_state: "state_of (get_accuracy fw ii acc_t n st) = st"
  by (simp add: get_accuracy_def split: sum.splits)

lemma average_runs_zero: "average_runs fw acc_t 0 ss = Inl ZeroDivisionError"
  by (simp add: average_runs_def py_range_def)

lemma average_runs_nonzero: "n \<noteq> 0 \<Longrightarrow> average_runs fw acc_t n ss \<noteq> Inl ZeroDivisionError"
  by (simp add: average_runs_def split: sum.splits prod.splits)

text \<open>
  C5. With an iteration count of 0, \<^verbatim>\<open>get_accuracy\<close> never returns a value, and whenever
  its session could be set up (the directory is empty, or a snapshot is stored under the
  prefix) what it raises is the division by zero. For every count of at least 1 it never
  raises a division by zero. \<^verbatim>\<open>get_valid_accuracy\<close> called without a count is
  \<^verbatim>\<open>get_accuracy\<close> on the validation iterator and accuracy with the count 50.
\<close>

theorem get_accuracy_division_by_zero:
  "returned (get_accuracy fw ii acc_t 0 st) = None
   \<and> (listing st = [] \<or> snapshot st \<noteq> None \<longrightarrow>
        get_accuracy fw ii acc_t 0 st = Raise ZeroDivisionError st)
   \<and> (1 \<le> n \<longrightarrow> raised (get_accuracy fw ii acc_t n st) \<noteq> Some ZeroDivisionError)
   \<and> get_valid_accuracy fw None st =
       get_accuracy fw iterator_valid_initializer (valid_accuracy fw) 50 st"
proof (intro conjI impI)
  show "returned (get_accuracy fw ii acc_t 0 st) = None"
    by (simp add: get_accuracy_def average_runs_zero split: sum.splits)
next
  assume "listing st = [] \<or> snapshot st \<noteq> None"
  then obtain ss where "accuracy_session fw ii st = Inr ss"
    by (cases "listing st = []")
      (auto simp: accuracy_session_empty accuracy_session_nonempty)
  then show "get_accuracy fw ii acc_t 0 st = Raise ZeroDivisionError st"
    by (simp add: get_accuracy_def average_runs_zero)
next
  assume "1 \<le> n"
  then have "n \<noteq> 0" by simp
  then have "average_runs fw acc_t n ss \<noteq> Inl ZeroDivisionError" for ss
    by (rule average_runs_nonzero)
  then show "raised (get_accuracy fw ii acc_t n st) \<noteq> Some ZeroDivisionError"
    by (auto simp add: get_accuracy_def split: sum.splits)
next
  show "get_valid_accuracy fw None st =
       get_accuracy fw iterator_valid_initializer (valid_accuracy fw) 50 st"
    by (simp add: get_valid_accuracy_def)
qed

theorem get_accuracy_division_by_zero_witness:
  "returned (get_accuracy demo_fw iterator_valid_initializer (valid_accuracy demo_fw) 0 empty_store) = None
   \<and> listing empty_store = []
   \<and> get_accuracy demo_fw iterator_valid_initializer (valid_accuracy demo_fw) 0 empty_store
       = Raise ZeroDivisionError empty_store
   \<and> (1::int) \<le> 3
   \<and> raised (get_accuracy demo_fw iterator_valid_initializer (valid_accuracy demo_fw) 3 empty_store)
       \<noteq> Some ZeroDivisionError
   \<and> get_valid_accuracy demo_fw None empty_store =
       get_accuracy demo_fw iterator_valid_initializer (valid_accuracy demo_fw) 50 empty_store"
  using get_accuracy_division_by_zero
    [of demo_fw iterator_valid_initializer "valid_accuracy demo_fw" empty_store 3]
  by (simp add: empty_store_def)

text \<open>
  C8. Whatever \<^verbatim>\<open>get_accuracy\<close> and \<^verbatim>\<open>get_valid_accuracy\<close> do, return or raise, the
  checkpoint directory they leave is the one they found: listing, stored snapshot and
  number of writes.
\<close>

theorem get_accuracy_leaves_store:
  "state_of (get_accuracy fw ii acc_t n st) = st
   \<and> state_of (get_valid_accuracy fw n_opt st) = st"
  by (simp add: get_accuracy_state get_valid_accuracy_def)

theorem get_accuracy_leaves_store_witness:
  "state_of (get_accuracy demo_fw iterator_valid_initializer (valid_accuracy demo_fw) 3 saved_store)
     = \<lparr>listing = checkpoint_files, snapshot = Some 7, writes = 1\<rparr>
   \<and> state_of (get_valid_accuracy demo_fw (Some 0) saved_store) = saved_store"
  using get_accuracy_leaves_store
    [of demo_fw iterator_valid_initializer "valid_accuracy demo_fw" 3 saved_store "Some 0"]
  by (simp add: saved_store_def)

subsection \<open>The mean, in float arithmetic\<close>

text \<open>
  The loop of \<^verbatim>\<open>get_accuracy\<close> adds up the values of successive executions of the tensor.
\<close>

lemma accuracy_loop_executions:
  "map_sum id fst (accuracy_loop rnd acc_t is acc ss) =
     map_sum id (foldl (float_add rnd) acc) (executions acc_t (length is) ss)"
proof (induction "is" arbitrary: acc ss)
  case Nil
  show ?case by simp
next
  case (Cons i "is")
  show ?case
  proof (cases "acc_t ss")
    case (Inl e)
    then show ?thesis by simp
  next
    case (Inr r)
    obtain v ss' where r: "r = (v, ss')" by (cases r)
    from Cons.IH [of "float_add rnd acc v" ss'] Inr r show ?thesis
      by (cases "executions acc_t (length is) ss'") auto
  qed
qed

lemma executions_values:
  "executions acc_t n ss = Inr vs \<Longrightarrow>
     length vs = n \<and> (\<forall>v \<in> set vs. \<exists>s s'. acc_t s = Inr (v, s'))"
proof (induction n arbitrary: ss vs)
  case 0
  then show ?case by simp
next
  case (Suc n)
  from Suc.prems obtain v ss' vs' where
    t: "acc_t ss = Inr (v, ss')" and e: "executions acc_t n ss' = Inr vs'" and vs: "vs = v # vs'"
    by (auto split: sum.splits prod.splits)
  from Suc.IH [OF e] t vs show ?case by auto
qed

text \<open>
  \<open>n\<close> runs are averaged as the arithmetic mean of the values of \<open>n\<close> successive
  executions, in float arithmetic.
\<close>

lemma average_runs_mean:
  assumes "1 \<le> n"
  shows "average_runs fw acc_t n ss =
     (case executions acc_t (nat n) ss of
        Inl e \<Rightarrow> Inl (TfError e)
      | Inr vs \<Rightarrow> Inr (arithmetic_mean (float_round fw) vs))"
proof -
  let ?rnd = "float_round fw"
  have len: "length (py_range n) = nat n" by (simp add: py_range_def)
  from accuracy_loop_executions [of ?rnd acc_t "py_range n" "Finite 0" ss]
  have rel: "map_sum id fst (accuracy_loop ?rnd acc_t (py_range n) (Finite 0) ss) =
      map_sum id (foldl (float_add ?rnd) (Finite 0)) (executions acc_t (nat n) ss)"
    by (simp add: len)
  show ?thesis
  proof (cases "executions acc_t (nat n) ss")
    case (Inl e)
    with rel have "accuracy_loop ?rnd acc_t (py_range n) (Finite 0) ss = Inl e"
      by (cases "accuracy_loop ?rnd acc_t (py_range n) (Finite 0) ss") auto
    with Inl show ?thesis by (simp add: average_runs_def)
  next
    case (Inr vs)
    with rel obtain ss' where
      loop: "accuracy_loop ?rnd acc_t (py_range n) (Finite 0) ss =
               Inr (foldl (float_add ?rnd) (Finite 0) vs, ss')"
      by (cases "accuracy_loop ?rnd acc_t (py_range n) (Finite 0) ss") auto
    from executions_values [OF Inr] have "length vs = nat n" by simp
    with assms have "int (length vs) = n" by simp
    with loop Inr assms show ?thesis
      by (simp add: average_runs_def arithmetic_mean_def)
  qed
qed

lemma exact_up_toD: "exact_up_to rnd n \<Longrightarrow> k \<le> n \<Longrightarrow> rnd (real k) = Finite (real k)"
  by (simp add: exact_up_to_def)

text \<open>
  A monotone rounding sends a real between two integers that are floats of the format
  to a finite float between them.
\<close>

lemma rounding_between:
  assumes mono: "monotone_rounding rnd"
    and lo: "rnd (real i) = Finite (real i)" and hi: "rnd (real j) = Finite (real j)"
    and x: "real i \<le> x" "x \<le> real j"
  shows "\<exists>y. rnd x = Finite y \<and> real i \<le> y \<and> y \<le> real j"
proof -
  from mono x have "float_le (rnd (real i)) (rnd x)" and "float_le (rnd x) (rnd (real j))"
    by (simp_all add: monotone_rounding_def)
  with lo hi have "float_le (Finite (real i)) (rnd x)" and "float_le (rnd x) (Finite (real j))"
    by simp_all
  then show ?thesis by (cases "rnd x") simp_all
qed

text \<open>
  The partial sums of values between 0 and 1 stay between 0 and the number of values
  added, rounding included, as long as that number is a float of the format.
\<close>

lemma sum_in_unit_interval:
  assumes mono: "monotone_rounding rnd" and exact: "exact_up_to rnd n"
  shows "\<forall>v \<in> set vs. in_unit_interval v \<Longrightarrow> 0 \<le> a \<Longrightarrow> a \<le> real j \<Longrightarrow>
     j + length vs \<le> n \<Longrightarrow>
     \<exists>x. foldl (float_add rnd) (Finite a) vs = Finite x \<and> 0 \<le> x \<and> x \<le> real (j + length vs)"
proof (induction vs arbitrary: a j)
  case Nil
  then show ?case by simp
next
  case (Cons v vs)
  from Cons.prems(1) obtain y where v: "v = Finite y" and y: "0 \<le> y" "y \<le> 1"
    by (cases v) auto
  have r0: "rnd (real (0::nat)) = Finite (real (0::nat))"
    by (rule exact_up_toD [OF exact]) simp
  have rj: "rnd (real (Suc j)) = Finite (real (Suc j))"
    using Cons.prems(4) by (intro exact_up_toD [OF exact]) simp
  from y Cons.prems(2,3) have "real (0::nat) \<le> a + y" and "a + y \<le> real (Suc j)"
    by simp_all
  with rounding_between [OF mono r0 rj] obtain z where
    z: "rnd (a + y) = Finite z" "0 \<le> z" "z \<le> real (Suc j)"
    by auto
  from Cons.prems(1) have rest: "\<forall>v \<in> set vs. in_unit_interval v" by simp
  from Cons.prems(4) have "Suc j + length vs \<le> n" by simp
  from Cons.IH [OF rest z(2) z(3) this] obtain x where
    "foldl (float_add rnd) (Finite z) vs = Finite x" "0 \<le> x" "x \<le> real (Suc j + length vs)"
    by blast
  with v z(1) show ?case by simp
qed

lemma mean_in_unit_interval:
  assumes mono: "monotone_rounding rnd" and exact: "exact_up_to rnd (length vs)"
    and unit: "\<forall>v \<in> set vs. in_unit_interval v" and ne: "vs \<noteq> []"
  shows "in_unit_interval (arithmetic_mean rnd vs)"
proof -
  let ?m = "length vs"
  from sum_in_unit_interval [OF mono exact unit, of 0 0] obtain x where
    x: "foldl (float_add rnd) (Finite 0) vs = Finite x" "0 \<le> x" "x \<le> real ?m"
    by auto
  from ne have pos: "0 < real ?m" and one: "1 \<le> ?m" by (simp_all add: Suc_le_eq)
  have rm: "rnd (real ?m) = Finite (real ?m)"
    by (rule exact_up_toD [OF exact]) simp
  have r0: "rnd (real (0::nat)) = Finite (real (0::nat))"
    by (rule exact_up_toD [OF exact]) simp
  have r1: "rnd (real (1::nat)) = Finite (real (1::nat))"
    using one by (intro exact_up_toD [OF exact])
  from x pos have "real (0::nat) \<le> x / real ?m" and "x / real ?m \<le> real (1::nat)"
    by (simp_all add: divide_le_eq)
  with rounding_between [OF mono r0 r1] obtain y where
    y: "rnd (x / real ?m) = Finite y" "0 \<le> y" "y \<le> 1"
    by auto
  from x(1) rm pos have "arithmetic_mean rnd vs = rnd (x / real ?m)"
    by (simp add: arithmetic_mean_def float_div_int_def)
  with y show ?thesis by simp
qed

text \<open>Where nothing is rounded, the mean is the sum of the reals by their number.\<close>

lemma arithmetic_mean_exact:
  assumes "xs \<noteq> []"
  shows "arithmetic_mean Finite (map Finite xs) = Finite (sum_list xs / real (length xs))"
proof -
  have "foldl (float_add Finite) (Finite a) (map Finite xs) = Finite (a + sum_list xs)" for a
    by (induction xs arbitrary: a) (simp_all add: add.assoc)
  from this [of 0] assms show ?thesis
    by (simp add: arithmetic_mean_def float_div_int_def)
qed

text \<open>
  C6. For an iteration count \<open>n\<close> of at least 1, \<^verbatim>\<open>get_accuracy\<close> returns the
  arithmetic mean of the values of \<open>n\<close> successive executions of the accuracy tensor in
  the session it has set up, as float arithmetic computes it: the values are added up
  in order and the sum is divided by \<open>n\<close>, each operation rounding its result (and the
  call raises what the setup or an execution raises). When every execution of the tensor
  yields a value between 0 and 1, the value returned is between 0 and 1 too, for every
  float format whose rounding is monotone and in which the integers up to \<open>n\<close> are
  floats: rounding cannot carry a partial sum above the number of values added, nor the
  quotient above 1.
\<close>

theorem get_accuracy_mean:
  assumes "1 \<le> n"
  shows "get_accuracy fw ii acc_t n st =
      (case accuracy_session fw ii st of
         Inl e \<Rightarrow> Raise (TfError e) st
       | Inr ss \<Rightarrow>
           (case executions acc_t (nat n) ss of
              Inl e \<Rightarrow> Raise (TfError e) st
            | Inr vs \<Rightarrow> Return (arithmetic_mean (float_round fw) vs) st))
    \<and> (monotone_rounding (float_round fw) \<and> exact_up_to (float_round fw) (nat n)
         \<and> (\<forall>s v s'. acc_t s = Inr (v, s') \<longrightarrow> in_unit_interval v) \<longrightarrow>
         (\<forall>r st'. get_accuracy fw ii acc_t n st = Return r st' \<longrightarrow> in_unit_interval r))"
proof -
  have eq: "get_accuracy fw ii acc_t n st =
      (case accuracy_session fw ii st of
         Inl e \<Rightarrow> Raise (TfError e) st
       | Inr ss \<Rightarrow>
           (case executions acc_t (nat n) ss of
              Inl e \<Rightarrow> Raise (TfError e) st
            | Inr vs \<Rightarrow> Return (arithmetic_mean (float_round fw) vs) st))"
    by (simp add: get_accuracy_def average_runs_mean [OF assms] split: sum.splits)
  have bound: "in_unit_interval r"
    if mono: "monotone_rounding (float_round fw)"
      and exact: "exact_up_to (float_round fw) (nat n)"
      and unit: "\<forall>s v s'. acc_t s = Inr (v, s') \<longrightarrow> in_unit_interval v"
      and ret: "get_accuracy fw ii acc_t n st = Return r st'" for r st'
  proof -
    from ret eq obtain ss vs where
      ex: "executions acc_t (nat n) ss = Inr vs"
      and r: "r = arithmetic_mean (float_round fw) vs"
      by (auto split: sum.splits)
    from executions_values [OF ex] have len: "length vs = nat n"
      and src: "\<forall>v \<in> set vs. \<exists>s s'. acc_t s = Inr (v, s')"
      by simp_all
    from src unit have all: "\<forall>v \<in> set vs. in_unit_interval v" by blast
    from len assms have ne: "vs \<noteq> []" by auto
    from exact len have "exact_up_to (float_round fw) (length vs)" by simp
    with mono show ?thesis unfolding r using all ne by (rule mean_in_unit_interval)
  qed
  from eq bound show ?thesis by blast
qed

lemma demo_round_monotone: "monotone_rounding demo_round"
  unfolding monotone_rounding_def demo_round_def
proof (intro allI impI)
  fix x y :: real
  assume "x \<le> y"
  then have "round (x * 1024) \<le> round (y * 1024)" by (intro round_mono) simp
  then show "float_le (Finite (real_of_int (round (x * 1024)) / 1024))
      (Finite (real_of_int (round (y * 1024)) / 1024))"
    by (simp add: divide_le_cancel)
qed

lemma demo_round_exact: "exact_up_to demo_round n"
proof -
  have "round (real k * 1024) = int k * 1024" for k
  proof -
    have "real k * 1024 = real_of_int (int k * 1024)" by simp
    then show ?thesis by (simp only: round_of_int)
  qed
  then show ?thesis by (simp add: exact_up_to_def demo_round_def)
qed

lemma demo_accuracy_unit:
  "\<forall>s v s'. valid_accuracy demo_fw s = Inr (v, s') \<longrightarrow> in_unit_interval v"
  by (auto simp: valid_accuracy_def demo_fw_def split: option.splits)

lemma demo_accuracy_fresh:
  "get_accuracy demo_fw iterator_valid_initializer (valid_accuracy demo_fw) 3 empty_store =
     Return (Finite (1 / 2)) empty_store"
  by (simp add: get_accuracy_def average_runs_def accuracy_session_def empty_store_def
      py_range_def upt_rec valid_accuracy_def demo_fw_def demo_round_def new_session_def
      iterator_valid_initializer_def global_variables_initializer_def float_div_int_def)

theorem get_accuracy_mean_witness:
  "(1::int) \<le> 3
   \<and> monotone_rounding (float_round demo_fw) \<and> exact_up_to (float_round demo_fw) (nat 3)
   \<and> get_accuracy demo_fw iterator_valid_initializer (valid_accuracy demo_fw) 3 empty_store =
       Return (arithmetic_mean (float_round demo_fw) [Finite 1, Finite (1 / 2), Finite 0])
         empty_store
   \<and> arithmetic_mean (float_round demo_fw) [Finite 1, Finite (1 / 2), Finite 0] = Finite (1 / 2)
   \<and> in_unit_interval (Finite (1 / 2))"
proof -
  have h: "(1::int) \<le> 3" by simp
  have fr: "float_round demo_fw = demo_round" by (simp add: demo_fw_def)
  have mono: "monotone_rounding (float_round demo_fw)"
    and exact: "exact_up_to (float_round demo_fw) (nat 3)"
    by (simp_all only: fr demo_round_monotone demo_round_exact)
  have mean: "arithmetic_mean (float_round demo_fw) [Finite 1, Finite (1 / 2), Finite 0] =
      Finite (1 / 2)"
    by (simp add: fr arithmetic_mean_def float_div_int_def demo_round_def)
  note inst = get_accuracy_mean [OF h, of demo_fw iterator_valid_initializer
      "valid_accuracy demo_fw" empty_store]
  from inst mono exact demo_accuracy_unit demo_accuracy_fresh
  have "in_unit_interval (Finite (1 / 2))" by blast
  with h mono exact demo_accuracy_fresh mean show ?thesis by simp
qed

section \<open>Properties of the training loop\<close>

subsection \<open>One pass through the body of the inner loop\<close>

lemma update_weights_and_loss_Inr:
  assumes "update_weights_and_loss fw ss = Inr (l, ss')"
  shows "\<exists>p k b. variables ss = Some p \<and> train_pos ss = Some k \<and> train_batch fw k = Some b
           \<and> l = snd (optimizer_step fw p b)
           \<and> ss' = ss\<lparr>variables := Some (fst (optimizer_step fw p b)), train_pos := Some (Suc k)\<rparr>"
  using assms
  by (simp add: update_weights_and_loss_def split: option.splits)

lemma tf_valid_loss_Inr:
  assumes "tf_valid_loss fw ss = Inr (v, ss')"
  shows "\<exists>p k b. variables ss = Some p \<and> valid_pos ss = Some k \<and> valid_batch fw k = Some b
           \<and> v = valid_loss_of fw p b \<and> ss' = ss\<lparr>valid_pos := Some (Suc k)\<rparr>"
  using assms
  by (simp add: tf_valid_loss_def split: option.splits)

text \<open>
  What lines 188 to 192 can do: raise in the framework and leave the state; fetch a loss
  that is not below the best one and only record it; or fetch one that is below, save
  the parameters and replace the best one. The save itself cannot fail here, since a
  validation loss was computed from initialized variables.
\<close>

lemma validate_cases [case_names raise keep save]:
  obtains e where "validate fw s = Raise (TfError e) s"
  | v ss where "\<not> float_lt v (best_valid_loss s)"
      and "validate fw s = Return () (s\<lparr>sess := ss, valid_log := valid_log s @ [v]\<rparr>)"
      and "train_pos ss = train_pos (sess s)" and "variables ss = variables (sess s)"
  | v ss p where "float_lt v (best_valid_loss s)"
      and "validate fw s =
             Return () (s\<lparr>sess := ss, valid_log := valid_log s @ [v],
                          ckpt := (ckpt s)\<lparr>listing := List.union (listing (ckpt s)) checkpoint_files,
                                          snapshot := Some p,
                                          writes := Suc (writes (ckpt s))\<rparr>,
                          best_valid_loss := v\<rparr>)"
      and "train_pos ss = train_pos (sess s)" and "variables ss = Some p"
      and "variables (sess s) = Some p"
proof (cases "tf_valid_loss fw (sess s)")
  case (Inl e)
  then have "validate fw s = Raise (TfError e) s" by (simp add: validate_def)
  then show ?thesis by (rule that(1))
next
  case (Inr r)
  obtain v ss where r: "r = (v, ss)" by (cases r)
  from tf_valid_loss_Inr [OF Inr [unfolded r]] obtain p where
    p: "variables (sess s) = Some p" "variables ss = Some p" "train_pos ss = train_pos (sess s)"
    by auto
  show ?thesis
  proof (cases "float_lt v (best_valid_loss s)")
    case False
    with Inr r have "validate fw s = Return () (s\<lparr>sess := ss, valid_log := valid_log s @ [v]\<rparr>)"
      by (simp add: validate_def)
    with False p show ?thesis by (auto intro: that(2))
  next
    case True
    with Inr r p have "validate fw s =
             Return () (s\<lparr>sess := ss, valid_log := valid_log s @ [v],
                          ckpt := (ckpt s)\<lparr>listing := List.union (listing (ckpt s)) checkpoint_files,
                                          snapshot := Some p,
                                          writes := Suc (writes (ckpt s))\<rparr>,
                          best_valid_loss := v\<rparr>)"
      by (simp add: validate_def saver_save_def)
    with True p show ?thesis by (auto intro: that(3))
  qed
qed

text \<open>What one pass through the body of the inner loop can do to the state.\<close>

lemma fit_step_cases [case_names raise skip keep save]:
  obtains e ss c where
      "fit_step fw tr verbose epoch step s = Raise e (s\<lparr>sess := ss, console := c\<rparr>)"
  | ss k where "fit_step fw tr verbose epoch step s = Return () (s\<lparr>sess := ss\<rparr>)"
      and "train_pos (sess s) = Some k" and "train_pos ss = Some (Suc k)"
  | v ss c k where "\<not> float_lt v (best_valid_loss s)"
      and "fit_step fw tr verbose epoch step s =
             Return () (s\<lparr>sess := ss, console := c, valid_log := valid_log s @ [v]\<rparr>)"
      and "train_pos (sess s) = Some k" and "train_pos ss = Some (Suc k)"
  | v ss c p k where "float_lt v (best_valid_loss s)"
      and "fit_step fw tr verbose epoch step s =
             Return () (s\<lparr>sess := ss, console := c, valid_log := valid_log s @ [v],
                          ckpt := (ckpt s)\<lparr>listing := List.union (listing (ckpt s)) checkpoint_files,
                                          snapshot := Some p,
                                          writes := Suc (writes (ckpt s))\<rparr>,
                          best_valid_loss := v\<rparr>)"
      and "variables ss = Some p"
      and "train_pos (sess s) = Some k" and "train_pos ss = Some (Suc k)"
proof (cases "update_weights_and_loss fw (sess s)")
  case (Inl e)
  then have "fit_step fw tr verbose epoch step s = Raise (TfError e) (s\<lparr>sess := sess s, console := console s\<rparr>)"
    by (simp add: fit_step_def)
  then show ?thesis by (rule that(1))
next
  case (Inr r)
  obtain l ss where r: "r = (l, ss)" by (cases r)
  from update_weights_and_loss_Inr [OF Inr [unfolded r]] obtain k where
    k: "train_pos (sess s) = Some k" "train_pos ss = Some (Suc k)"
    by auto
  let ?s1 = "s\<lparr>sess := ss\<rparr>"
  let ?s2 = "print_info verbose epoch step l ?s1"
  have s2: "?s2 = s\<lparr>sess := ss, console := console ?s2\<rparr>"
    "sess ?s2 = ss" "best_valid_loss ?s2 = best_valid_loss s" "valid_log ?s2 = valid_log s"
    "ckpt ?s2 = ckpt s"
    by (simp_all add: print_info_def)
  consider (zero) "show_step tr = 0"
    | (off) "show_step tr \<noteq> 0" "int step mod show_step tr \<noteq> 0"
    | (on) "show_step tr \<noteq> 0" "int step mod show_step tr = 0"
    by (cases "show_step tr = 0"; cases "int step mod show_step tr = 0") simp_all
  then show ?thesis
  proof cases
    case zero
    with Inr r have "fit_step fw tr verbose epoch step s =
        Raise ZeroDivisionError (s\<lparr>sess := ss, console := console s\<rparr>)"
      by (simp add: fit_step_def)
    then show ?thesis by (rule that(1))
  next
    case off
    with Inr r have "fit_step fw tr verbose epoch step s = Return () (s\<lparr>sess := ss\<rparr>)"
      by (simp add: fit_step_def)
    with k show ?thesis by (auto intro: that(2))
  next
    case on
    with Inr r have step: "fit_step fw tr verbose epoch step s = validate fw ?s2"
      by (simp add: fit_step_def)
    show ?thesis
    proof (cases fw ?s2 rule: validate_cases)
      case (raise e)
      with step s2(1) have "fit_step fw tr verbose epoch step s =
          Raise (TfError e) (s\<lparr>sess := ss, console := console ?s2\<rparr>)"
        by simp
      then show ?thesis by (rule that(1))
    next
      case (keep v ss')
      from keep(2) step have "fit_step fw tr verbose epoch step s =
          Return () (?s2\<lparr>sess := ss', valid_log := valid_log ?s2 @ [v]\<rparr>)"
        by simp
      also have "?s2\<lparr>sess := ss', valid_log := valid_log ?s2 @ [v]\<rparr> =
          s\<lparr>sess := ss', console := console ?s2, valid_log := valid_log s @ [v]\<rparr>"
        by (simp add: print_info_def)
      finally have eq: "fit_step fw tr verbose epoch step s =
          Return () (s\<lparr>sess := ss', console := console ?s2, valid_log := valid_log s @ [v]\<rparr>)" .
      from keep(1) s2(3) have nlt: "\<not> float_lt v (best_valid_loss s)" by simp
      from keep(3) s2(2) k have "train_pos ss' = Some (Suc k)" by simp
      with nlt eq k(1) show ?thesis by (auto intro: that(3))
    next
      case (save v ss' p)
      from save(2) step have "fit_step fw tr verbose epoch step s =
          Return () (?s2\<lparr>sess := ss', valid_log := valid_log ?s2 @ [v],
                          ckpt := (ckpt ?s2)\<lparr>listing := List.union (listing (ckpt ?s2)) checkpoint_files,
                                          snapshot := Some p,
                                          writes := Suc (writes (ckpt ?s2))\<rparr>,
                          best_valid_loss := v\<rparr>)"
        by simp
      also have "?s2\<lparr>sess := ss', valid_log := valid_log ?s2 @ [v],
                          ckpt := (ckpt ?s2)\<lparr>listing := List.union (listing (ckpt ?s2)) checkpoint_files,
                                          snapshot := Some p,
                                          writes := Suc (writes (ckpt ?s2))\<rparr>,
                          best_valid_loss := v\<rparr> =
          s\<lparr>sess := ss', console := console ?s2, valid_log := valid_log s @ [v],
                          ckpt := (ckpt s)\<lparr>listing := List.union (listing (ckpt s)) checkpoint_files,
                                          snapshot := Some p,
                                          writes := Suc (writes (ckpt s))\<rparr>,
                          best_valid_loss := v\<rparr>"
        by (simp add: print_info_def)
      finally have eq: "fit_step fw tr verbose epoch step s =
          Return () (s\<lparr>sess := ss', console := console ?s2, valid_log := valid_log s @ [v],
                          ckpt := (ckpt s)\<lparr>listing := List.union (listing (ckpt s)) checkpoint_files,
                                          snapshot := Some p,
                                          writes := Suc (writes (ckpt s))\<rparr>,
                          best_valid_loss := v\<rparr>)" .
      from save(1) s2(3) have lt: "float_lt v (best_valid_loss s)" by simp
      from save(3) s2(2) k have "train_pos ss' = Some (Suc k)" by simp
      with lt eq k(1) save(4) show ?thesis by (auto intro: that(4))
    qed
  qed
qed

subsection \<open>From one pass to the whole call\<close>

text \<open>
  A property of the state that every pass keeps, whether the pass returns or raises,
  holds in the state in which the loops and the call end.
\<close>

lemma fit_steps_invariant:
  assumes step: "\<And>epoch step s. P s \<Longrightarrow> P (state_of (fit_step fw tr verbose epoch step s))"
  shows "P s \<Longrightarrow> P (state_of (fit_steps fw tr verbose epoch steps s))"
proof (induction steps arbitrary: s)
  case Nil
  then show ?case by simp
next
  case (Cons k steps)
  from Cons.prems have P: "P (state_of (fit_step fw tr verbose epoch k s))" by (rule step)
  show ?case
  proof (cases "fit_step fw tr verbose epoch k s")
    case (Raise e s')
    with P show ?thesis by simp
  next
    case (Return u s')
    with P have "P s'" by simp
    then have "P (state_of (fit_steps fw tr verbose epoch steps s'))" by (rule Cons.IH)
    with Return show ?thesis by simp
  qed
qed

lemma fit_epochs_invariant:
  assumes step: "\<And>epoch step s. P s \<Longrightarrow> P (state_of (fit_step fw tr verbose epoch step s))"
  shows "P s \<Longrightarrow> P (state_of (fit_epochs fw tr verbose es s))"
proof (induction es arbitrary: s)
  case Nil
  then show ?case by simp
next
  case (Cons epoch es)
  have P: "P (state_of (fit_steps fw tr verbose epoch (py_range (iterations tr)) s))"
    using step Cons.prems by (rule fit_steps_invariant)
  show ?case
  proof (cases "fit_steps fw tr verbose epoch (py_range (iterations tr)) s")
    case (Raise e s')
    with P show ?thesis by simp
  next
    case (Return u s')
    with P have "P s'" by simp
    then have "P (state_of (fit_epochs fw tr verbose es s'))" by (rule Cons.IH)
    with Return show ?thesis by simp
  qed
qed

lemma fit_invariant:
  assumes step: "\<And>epoch step s. P s \<Longrightarrow> P (state_of (fit_step fw tr verbose epoch step s))"
    and start: "P (state_of (fit_start fw st))"
  shows "P (state_of (fit fw tr verbose st))"
proof (cases "fit_start fw st")
  case (Raise e s)
  with start show ?thesis by (simp add: fit_def)
next
  case (Return u s)
  with start have "P s" by simp
  have "P (state_of (fit_epochs fw tr verbose (py_range (epochs tr)) s))"
    using step \<open>P s\<close> by (rule fit_epochs_invariant)
  with Return show ?thesis by (simp add: fit_def)
qed

lemma fit_start_state:
  "\<exists>ss. state_of (fit_start fw st) = (fit_setup fw st)\<lparr>sess := ss\<rparr>"
proof (cases "tf_train_loss fw (sess (fit_setup fw st))")
  case (Inl e)
  then have "state_of (fit_start fw st) = (fit_setup fw st)\<lparr>sess := sess (fit_setup fw st)\<rparr>"
    by (simp add: fit_start_def)
  then show ?thesis ..
next
  case (Inr r)
  then have "state_of (fit_start fw st) = (fit_setup fw st)\<lparr>sess := snd r\<rparr>"
    by (cases r) (simp add: fit_start_def)
  then show ?thesis ..
qed

text \<open>
  The call returns when neither iterator runs out and \<^verbatim>\<open>show_step\<close> is not zero.
\<close>

lemma fit_step_returns:
  assumes tb: "\<forall>k. train_batch fw k \<noteq> None" and vb: "\<forall>k. valid_batch fw k \<noteq> None"
    and nz: "show_step tr \<noteq> 0" and r: "ready (sess s)"
  shows "\<exists>s'. fit_step fw tr verbose epoch step s = Return () s' \<and> ready (sess s')"
proof -
  from r obtain p k j where s: "variables (sess s) = Some p" "train_pos (sess s) = Some k"
    "valid_pos (sess s) = Some j"
    by (auto simp: ready_def)
  from tb have "train_batch fw k \<noteq> None" by blast
  then obtain b where b: "train_batch fw k = Some b" by blast
  from vb have "valid_batch fw j \<noteq> None" by blast
  then obtain c where c: "valid_batch fw j = Some c" by blast
  show ?thesis
    using s b c nz
    by (simp add: fit_step_def update_weights_and_loss_def validate_def print_info_def
        tf_valid_loss_def saver_save_def ready_def)
qed

lemma fit_steps_returns:
  assumes tb: "\<forall>k. train_batch fw k \<noteq> None" and vb: "\<forall>k. valid_batch fw k \<noteq> None"
    and nz: "show_step tr \<noteq> 0"
  shows "ready (sess s) \<Longrightarrow>
    \<exists>s'. fit_steps fw tr verbose epoch steps s = Return () s' \<and> ready (sess s')"
proof (induction steps arbitrary: s)
  case Nil
  then show ?case by simp
next
  case (Cons k steps)
  from fit_step_returns [OF tb vb nz Cons.prems, of verbose epoch k] obtain s1 where
    s1: "fit_step fw tr verbose epoch k s = Return () s1" "ready (sess s1)" by blast
  from Cons.IH [OF s1(2)] s1(1) show ?case by simp
qed

lemma fit_epochs_returns:
  assumes tb: "\<forall>k. train_batch fw k \<noteq> None" and vb: "\<forall>k. valid_batch fw k \<noteq> None"
    and nz: "show_step tr \<noteq> 0"
  shows "ready (sess s) \<Longrightarrow>
    \<exists>s'. fit_epochs fw tr verbose es s = Return () s' \<and> ready (sess s')"
proof (induction es arbitrary: s)
  case Nil
  then show ?case by simp
next
  case (Cons epoch es)
  from fit_steps_returns [OF tb vb nz Cons.prems, of verbose epoch "py_range (iterations tr)"]
  obtain s1 where
    s1: "fit_steps fw tr verbose epoch (py_range (iterations tr)) s = Return () s1"
      "ready (sess s1)" by blast
  from Cons.IH [OF s1(2)] s1(1) show ?case by simp
qed

lemma fit_returns:
  assumes tb: "\<forall>k. train_batch fw k \<noteq> None" and vb: "\<forall>k. valid_batch fw k \<noteq> None"
    and nz: "show_step tr \<noteq> 0"
  shows "\<exists>s'. fit fw tr verbose st = Return () s'"
proof -
  from tb have "train_batch fw 0 \<noteq> None" by blast
  then obtain b where b: "train_batch fw 0 = Some b" by blast
  then obtain s where s: "fit_start fw st = Return () s" "ready (sess s)"
    by (simp add: fit_start_def fit_setup_def tf_train_loss_def new_session_def
        iterator_train_initializer_def iterator_valid_initializer_def
        global_variables_initializer_def ready_def)
  from fit_epochs_returns [OF tb vb nz s(2), of verbose "py_range (epochs tr)"] s(1)
  show ?thesis by (auto simp: fit_def)
qed

subsection \<open>Two concrete runs\<close>

lemmas run_defs =
  fit_def fit_start_def fit_setup_def py_range_def upt_rec
  fit_step_def validate_def print_info_def
  tf_train_loss_def update_weights_and_loss_def tf_valid_loss_def saver_save_def
  new_session_def iterator_train_initializer_def iterator_valid_initializer_def
  global_variables_initializer_def checkpoint_files_def List.union_def List.insert_def

lemma demo_run:
  "fit demo_fw demo_trainer True empty_store =
     Return ()
       \<lparr>ckpt = \<lparr>listing = checkpoint_files, snapshot = Some 3, writes = 2\<rparr>,
        sess = \<lparr>variables = Some 6, train_pos = Some 7, valid_pos = Some 4\<rparr>,
        best_valid_loss = Finite 1,
        valid_log = [Finite 3, Finite 1, Finite 1, Finite 1],
        console = [(1, 1, Finite 1, PosInf), (1, 3, Finite 3, Finite 3),
                   (2, 1, Finite 4, Finite 1), (2, 3, Finite 6, Finite 1)]\<rparr>"
  by (simp add: run_defs demo_fw_def demo_trainer_def empty_store_def)

lemma nan_run:
  "fit nan_fw demo_trainer False empty_store =
     Return ()
       \<lparr>ckpt = \<lparr>listing = [], snapshot = None, writes = 0\<rparr>,
        sess = \<lparr>variables = Some 6, train_pos = Some 7, valid_pos = Some 4\<rparr>,
        best_valid_loss = PosInf,
        valid_log = [NaN, NaN, NaN, NaN],
        console = []\<rparr>"
  by (simp add: run_defs nan_fw_def demo_fw_def demo_trainer_def empty_store_def)

lemma demo_start: "fit_start demo_fw empty_store = Return () demo_started"
  by (simp add: run_defs demo_fw_def demo_started_def)

lemma demo_first_step:
  "fit_step demo_fw demo_trainer True 0 0 demo_started =
     Return ()
       \<lparr>ckpt = \<lparr>listing = checkpoint_files, snapshot = Some 1, writes = 1\<rparr>,
        sess = \<lparr>variables = Some 1, train_pos = Some 2, valid_pos = Some 1\<rparr>,
        best_valid_loss = Finite 3,
        valid_log = [Finite 3],
        console = [(1, 1, Finite 1, PosInf)]\<rparr>"
  by (simp add: run_defs demo_fw_def demo_trainer_def demo_started_def empty_store_def)

subsection \<open>The call does not read the checkpoint directory\<close>

lemma same_run_cases:
  assumes "same_run a b"
  obtains e s1 s2 where "a = Raise e s1" "b = Raise e s2" "same_but_ckpt s1 s2"
  | s1 s2 where "a = Return () s1" "b = Return () s2" "same_but_ckpt s1 s2"
  using assms by (cases a; cases b) (auto simp: same_run_def)

lemma validate_same:
  assumes "same_but_ckpt s1 s2"
  shows "same_run (validate fw s1) (validate fw s2)"
proof -
  from assms have eq: "sess s1 = sess s2" "best_valid_loss s1 = best_valid_loss s2"
    "valid_log s1 = valid_log s2" "console s1 = console s2"
    by (simp_all add: same_but_ckpt_def)
  show ?thesis
  proof (cases "tf_valid_loss fw (sess s2)")
    case (Inl e)
    with eq show ?thesis by (simp add: validate_def same_run_def same_but_ckpt_def)
  next
    case (Inr r)
    obtain v ss where r: "r = (v, ss)" by (cases r)
    show ?thesis
    proof (cases "float_lt v (best_valid_loss s2)")
      case False
      with Inr r eq show ?thesis by (simp add: validate_def same_run_def same_but_ckpt_def)
    next
      case True
      with Inr r eq show ?thesis
        by (cases "variables ss")
          (simp_all add: validate_def saver_save_def same_run_def same_but_ckpt_def)
    qed
  qed
qed

lemma fit_step_same:
  assumes "same_but_ckpt s1 s2"
  shows "same_run (fit_step fw tr verbose epoch step s1) (fit_step fw tr verbose epoch step s2)"
proof -
  from assms have eq: "sess s1 = sess s2" "best_valid_loss s1 = best_valid_loss s2"
    "valid_log s1 = valid_log s2" "console s1 = console s2"
    by (simp_all add: same_but_ckpt_def)
  show ?thesis
  proof (cases "update_weights_and_loss fw (sess s2)")
    case (Inl e)
    with eq show ?thesis by (simp add: fit_step_def same_run_def same_but_ckpt_def)
  next
    case (Inr r)
    obtain l ss where r: "r = (l, ss)" by (cases r)
    have pr: "same_but_ckpt (print_info verbose epoch step l (s1\<lparr>sess := ss\<rparr>))
        (print_info verbose epoch step l (s2\<lparr>sess := ss\<rparr>))"
      using eq by (simp add: same_but_ckpt_def print_info_def)
    show ?thesis
    proof (cases "show_step tr \<noteq> 0 \<and> int step mod show_step tr = 0")
      case True
      with Inr r eq validate_same [OF pr, of fw] show ?thesis by (simp add: fit_step_def)
    next
      case False
      with Inr r eq show ?thesis
        by (auto simp add: fit_step_def same_run_def same_but_ckpt_def)
    qed
  qed
qed

lemma fit_steps_same:
  "same_but_ckpt s1 s2 \<Longrightarrow>
     same_run (fit_steps fw tr verbose epoch steps s1) (fit_steps fw tr verbose epoch steps s2)"
proof (induction steps arbitrary: s1 s2)
  case Nil
  then show ?case by (simp add: same_run_def)
next
  case (Cons k steps)
  from fit_step_same [OF Cons.prems, of fw tr verbose epoch k] show ?case
  proof (cases rule: same_run_cases)
    case (1 e t1 t2)
    then show ?thesis by (simp add: same_run_def)
  next
    case (2 t1 t2)
    with Cons.IH [OF 2(3)] show ?thesis by simp
  qed
qed

lemma fit_epochs_same:
  "same_but_ckpt s1 s2 \<Longrightarrow>
     same_run (fit_epochs fw tr verbose es s1) (fit_epochs fw tr verbose es s2)"
proof (induction es arbitrary: s1 s2)
  case Nil
  then show ?case by (simp add: same_run_def)
next
  case (Cons epoch es)
  from fit_steps_same [OF Cons.prems, of fw tr verbose epoch "py_range (iterations tr)"]
  show ?case
  proof (cases rule: same_run_cases)
    case (1 e t1 t2)
    then show ?thesis by (simp add: same_run_def)
  next
    case (2 t1 t2)
    with Cons.IH [OF 2(3)] show ?thesis by simp
  qed
qed

lemma fit_start_same: "same_run (fit_start fw st1) (fit_start fw st2)"
  by (simp add: fit_start_def fit_setup_def same_run_def same_but_ckpt_def
      split: sum.splits prod.splits)

lemma fit_same: "same_run (fit fw tr verbose st1) (fit fw tr verbose st2)"
  using fit_start_same [of fw st1 st2]
proof (cases rule: same_run_cases)
  case (1 e t1 t2)
  then show ?thesis by (simp add: fit_def same_run_def)
next
  case (2 t1 t2)
  with fit_epochs_same [OF 2(3), of fw tr verbose "py_range (epochs tr)"]
  show ?thesis by (simp add: fit_def)
qed

text \<open>
  C2. A call of \<^verbatim>\<open>fit\<close> starts from a session in which both iterators stand at their
  first batch and the variables hold the freshly initialized values, with the local
  \<^verbatim>\<open>best_valid_loss\<close> at \<open>+\<infinity>\<close>, and runs the training loss and the loops from there.
  Nothing of the call depends on the checkpoint directory it finds: on two directories,
  whatever they list and store, the call raises the same error or returns in both, and
  ends with the same session, the same best validation loss, the same validation
  losses fetched and the same progress lines. The parameters are never restored.
\<close>

theorem fit_starts_from_scratch:
  "fit_setup fw st =
     \<lparr>ckpt = st,
      sess = \<lparr>variables = Some (fresh_variables fw), train_pos = Some 0, valid_pos = Some 0\<rparr>,
      best_valid_loss = PosInf, valid_log = [], console = []\<rparr>
   \<and> fit fw tr verbose st =
       (case tf_train_loss fw (sess (fit_setup fw st)) of
          Inl e \<Rightarrow> Raise (TfError e) (fit_setup fw st)
        | Inr (show_loss, ss) \<Rightarrow>
            fit_epochs fw tr verbose (py_range (epochs tr)) ((fit_setup fw st)\<lparr>sess := ss\<rparr>))
   \<and> same_run (fit fw tr verbose st) (fit fw tr verbose st')"
proof (intro conjI)
  show "fit_setup fw st =
     \<lparr>ckpt = st,
      sess = \<lparr>variables = Some (fresh_variables fw), train_pos = Some 0, valid_pos = Some 0\<rparr>,
      best_valid_loss = PosInf, valid_log = [], console = []\<rparr>"
    by (simp add: fit_setup_def new_session_def iterator_train_initializer_def
        iterator_valid_initializer_def global_variables_initializer_def)
  show "fit fw tr verbose st =
       (case tf_train_loss fw (sess (fit_setup fw st)) of
          Inl e \<Rightarrow> Raise (TfError e) (fit_setup fw st)
        | Inr (show_loss, ss) \<Rightarrow>
            fit_epochs fw tr verbose (py_range (epochs tr)) ((fit_setup fw st)\<lparr>sess := ss\<rparr>))"
    by (simp add: fit_def fit_start_def split: sum.splits prod.splits)
  show "same_run (fit fw tr verbose st) (fit fw tr verbose st')"
    by (rule fit_same)
qed

theorem fit_starts_from_scratch_witness:
  "snapshot saved_store = Some 7 \<and> listing saved_store = checkpoint_files
   \<and> variables (sess (fit_setup demo_fw saved_store)) = Some 0
   \<and> raised (fit demo_fw demo_trainer True saved_store) = None
   \<and> sess (state_of (fit demo_fw demo_trainer True saved_store)) =
       \<lparr>variables = Some 6, train_pos = Some 7, valid_pos = Some 4\<rparr>
   \<and> valid_log (state_of (fit demo_fw demo_trainer True saved_store)) =
       [Finite 3, Finite 1, Finite 1, Finite 1]"
proof -
  note inst = fit_starts_from_scratch [of demo_fw saved_store demo_trainer True empty_store]
  from inst have fresh: "fit_setup demo_fw saved_store =
     \<lparr>ckpt = saved_store,
      sess = \<lparr>variables = Some (fresh_variables demo_fw), train_pos = Some 0,
               valid_pos = Some 0\<rparr>,
      best_valid_loss = PosInf, valid_log = [], console = []\<rparr>"
    by (rule conjunct1)
  from inst have same: "same_run (fit demo_fw demo_trainer True saved_store)
      (fit demo_fw demo_trainer True empty_store)"
    by blast
  from fresh have "variables (sess (fit_setup demo_fw saved_store)) = Some 0"
    by (simp add: demo_fw_def)
  moreover from same have "raised (fit demo_fw demo_trainer True saved_store) = None"
    and "sess (state_of (fit demo_fw demo_trainer True saved_store)) =
       \<lparr>variables = Some 6, train_pos = Some 7, valid_pos = Some 4\<rparr>"
    and "valid_log (state_of (fit demo_fw demo_trainer True saved_store)) =
       [Finite 3, Finite 1, Finite 1, Finite 1]"
    by (simp_all add: same_run_def same_but_ckpt_def demo_run)
  ultimately show ?thesis by (simp add: saved_store_def)
qed

subsection \<open>Training batches consumed\<close>

lemma fit_steps_train_pos:
  "fit_steps fw tr verbose epoch steps s = Return () s' \<Longrightarrow> train_pos (sess s) = Some k \<Longrightarrow>
     train_pos (sess s') = Some (k + length steps)"
proof (induction steps arbitrary: s k)
  case Nil
  then show ?case by simp
next
  case (Cons i steps)
  from Cons.prems(1) obtain s1 where
    one: "fit_step fw tr verbose epoch i s = Return () s1"
    and rest: "fit_steps fw tr verbose epoch steps s1 = Return () s'"
    by (auto split: outcome.splits)
  have "train_pos (sess s1) = Some (Suc k)"
    using one Cons.prems(2)
    by (cases fw tr verbose epoch i s rule: fit_step_cases) auto
  from Cons.IH [OF rest this] show ?case by simp
qed

lemma fit_epochs_train_pos:
  "fit_epochs fw tr verbose es s = Return () s' \<Longrightarrow> train_pos (sess s) = Some k \<Longrightarrow>
     train_pos (sess s') = Some (k + length es * nat (iterations tr))"
proof (induction es arbitrary: s k)
  case Nil
  then show ?case by simp
next
  case (Cons epoch es)
  from Cons.prems(1) obtain s1 where
    one: "fit_steps fw tr verbose epoch (py_range (iterations tr)) s = Return () s1"
    and rest: "fit_epochs fw tr verbose es s1 = Return () s'"
    by (auto split: outcome.splits)
  from fit_steps_train_pos [OF one Cons.prems(2)]
  have "train_pos (sess s1) = Some (k + nat (iterations tr))" by (simp add: py_range_def)
  from Cons.IH [OF rest this] show ?case by (simp add: algebra_simps)
qed

lemma fit_start_Return:
  assumes "fit_start fw st = Return () s"
  shows "\<exists>b. train_batch fw 0 = Some b
     \<and> s = (fit_setup fw st)\<lparr>sess := \<lparr>variables = Some (fresh_variables fw),
                                      train_pos = Some 1, valid_pos = Some 0\<rparr>\<rparr>"
  using assms
  by (simp add: fit_start_def fit_setup_def tf_train_loss_def new_session_def
      iterator_train_initializer_def iterator_valid_initializer_def
      global_variables_initializer_def split: option.splits)

lemma fit_start_no_batch:
  assumes "train_batch fw 0 = None"
  shows "fit_start fw st = Raise (TfError OutOfRangeError) (fit_setup fw st)"
  using assms
  by (simp add: fit_start_def fit_setup_def tf_train_loss_def new_session_def
      iterator_train_initializer_def iterator_valid_initializer_def
      global_variables_initializer_def)

lemma fit_step_variables:
  assumes "update_weights_and_loss fw (sess s) = Inr (l, ss)"
  shows "variables (sess (state_of (fit_step fw tr verbose epoch step s))) = variables ss"
proof -
  let ?s2 = "print_info verbose epoch step l (s\<lparr>sess := ss\<rparr>)"
  have s2: "sess ?s2 = ss" by (simp add: print_info_def)
  have "variables (sess (state_of (validate fw ?s2))) = variables ss"
    by (cases fw ?s2 rule: validate_cases) (simp_all add: s2)
  with assms show ?thesis by (simp add: fit_step_def)
qed

text \<open>
  C10. Before the loops, \<^verbatim>\<open>fit\<close> runs the training loss once: without a first training
  batch the call raises there, whatever the number of epochs; with one, the loops begin
  with the variables still at their fresh values and the training iterator at its second
  batch, so the optimizer step of epoch 0, step 0 is done on the second batch. A call
  that returns has taken \<open>epochs * iterations + 1\<close> training batches (for counts that are
  not negative; a negative count is an empty range).
\<close>

theorem fit_consumes_one_extra_batch:
  "(train_batch fw 0 = None \<longrightarrow>
      fit fw tr verbose st = Raise (TfError OutOfRangeError) (fit_setup fw st))
   \<and> (\<forall>s. fit_start fw st = Return () s \<longrightarrow>
        variables (sess s) = Some (fresh_variables fw) \<and> train_pos (sess s) = Some 1
        \<and> (\<forall>b. train_batch fw 1 = Some b \<longrightarrow>
             variables (sess (state_of (fit_step fw tr verbose 0 0 s))) =
               Some (fst (optimizer_step fw (fresh_variables fw) b))))
   \<and> (\<forall>s'. fit fw tr verbose st = Return () s' \<longrightarrow>
        train_pos (sess s') = Some (nat (epochs tr) * nat (iterations tr) + 1))"
proof (intro conjI allI impI)
  assume "train_batch fw 0 = None"
  then show "fit fw tr verbose st = Raise (TfError OutOfRangeError) (fit_setup fw st)"
    by (simp add: fit_def fit_start_no_batch)
next
  fix s assume "fit_start fw st = Return () s"
  from fit_start_Return [OF this]
  have s: "s = (fit_setup fw st)\<lparr>sess := \<lparr>variables = Some (fresh_variables fw),
                                      train_pos = Some 1, valid_pos = Some 0\<rparr>\<rparr>"
    by blast
  from s show "variables (sess s) = Some (fresh_variables fw)" by simp
  from s show "train_pos (sess s) = Some 1" by simp
  fix b assume "train_batch fw 1 = Some b"
  with s have "update_weights_and_loss fw (sess s) =
      Inr (snd (optimizer_step fw (fresh_variables fw) b),
           (sess s)\<lparr>variables := Some (fst (optimizer_step fw (fresh_variables fw) b)),
                    train_pos := Some (Suc 1)\<rparr>)"
    by (simp add: update_weights_and_loss_def)
  from fit_step_variables [OF this]
  show "variables (sess (state_of (fit_step fw tr verbose 0 0 s))) =
               Some (fst (optimizer_step fw (fresh_variables fw) b))"
    by simp
next
  fix s' assume ret: "fit fw tr verbose st = Return () s'"
  then obtain s where start: "fit_start fw st = Return () s"
    and loop: "fit_epochs fw tr verbose (py_range (epochs tr)) s = Return () s'"
    by (auto simp: fit_def split: outcome.splits)
  from fit_start_Return [OF start] have "train_pos (sess s) = Some 1" by auto
  from fit_epochs_train_pos [OF loop this]
  show "train_pos (sess s') = Some (nat (epochs tr) * nat (iterations tr) + 1)"
    by (simp add: py_range_def)
qed

theorem fit_consumes_one_extra_batch_witness:
  "train_batch (demo_fw\<lparr>train_batch := (\<lambda>k. None)\<rparr>) 0 = None
   \<and> fit (demo_fw\<lparr>train_batch := (\<lambda>k. None)\<rparr>) (demo_trainer\<lparr>epochs := 0\<rparr>) True empty_store =
       Raise (TfError OutOfRangeError) (fit_setup (demo_fw\<lparr>train_batch := (\<lambda>k. None)\<rparr>) empty_store)
   \<and> fit_start demo_fw empty_store = Return () demo_started
   \<and> variables (sess demo_started) = Some (fresh_variables demo_fw)
   \<and> train_pos (sess demo_started) = Some 1
   \<and> train_batch demo_fw 1 = Some 1
   \<and> variables (sess (state_of (fit_step demo_fw demo_trainer True 0 0 demo_started))) =
       Some (fst (optimizer_step demo_fw (fresh_variables demo_fw) 1))
   \<and> fst (optimizer_step demo_fw (fresh_variables demo_fw) 1) = 1
   \<and> train_pos (sess (state_of (fit demo_fw demo_trainer True empty_store))) = Some 7
   \<and> nat (epochs demo_trainer) * nat (iterations demo_trainer) + 1 = 7"
proof -
  note inst = fit_consumes_one_extra_batch [of demo_fw demo_trainer True empty_store]
  have b1: "train_batch demo_fw 1 = Some 1" by (simp add: demo_fw_def)
  from inst demo_start have "variables (sess demo_started) = Some (fresh_variables demo_fw)"
    and "train_pos (sess demo_started) = Some 1"
    by blast+
  moreover from inst demo_start b1
  have "variables (sess (state_of (fit_step demo_fw demo_trainer True 0 0 demo_started))) =
       Some (fst (optimizer_step demo_fw (fresh_variables demo_fw) 1))"
    by blast
  moreover from inst demo_run
  have "train_pos (sess (state_of (fit demo_fw demo_trainer True empty_store))) =
      Some (nat (epochs demo_trainer) * nat (iterations demo_trainer) + 1)"
    by simp
  moreover have "nat (epochs demo_trainer) * nat (iterations demo_trainer) + 1 = 7"
    by (simp add: demo_trainer_def)
  moreover have "fst (optimizer_step demo_fw (fresh_variables demo_fw) 1) = 1"
    by (simp add: demo_fw_def)
  moreover have "train_batch (demo_fw\<lparr>train_batch := (\<lambda>k. None)\<rparr>) 0 = None" by simp
  moreover from this
    fit_consumes_one_extra_batch
      [of "demo_fw\<lparr>train_batch := (\<lambda>k. None)\<rparr>" "demo_trainer\<lparr>epochs := 0\<rparr>" True empty_store]
  have "fit (demo_fw\<lparr>train_batch := (\<lambda>k. None)\<rparr>) (demo_trainer\<lparr>epochs := 0\<rparr>) True empty_store =
       Raise (TfError OutOfRangeError) (fit_setup (demo_fw\<lparr>train_batch := (\<lambda>k. None)\<rparr>) empty_store)"
    by blast
  ultimately show ?thesis using demo_start b1 by simp
qed

subsection \<open>The best validation loss and the snapshots\<close>

lemma float_lt_trans: "float_lt a b \<Longrightarrow> float_lt b c \<Longrightarrow> float_lt a c"
  by (cases a; cases b; cases c) simp_all

lemma not_above_trans: "not_above a b \<Longrightarrow> not_above b c \<Longrightarrow> not_above a c"
  by (auto simp: not_above_def intro: float_lt_trans)

lemma best_seen_append:
  "best_seen b (vs @ [v]) = (if float_lt v (best_seen b vs) then v else best_seen b vs)"
  by (induction vs arbitrary: b) simp_all

lemma strict_decreases_append:
  "strict_decreases b (vs @ [v]) =
     strict_decreases b vs + (if float_lt v (best_seen b vs) then 1 else 0)"
  by (induction vs arbitrary: b) simp_all

lemma fit_step_best_not_above:
  "not_above (best_valid_loss (state_of (fit_step fw tr verbose epoch step s))) (best_valid_loss s)"
  by (cases fw tr verbose epoch step s rule: fit_step_cases) (simp_all add: not_above_def)

lemma fit_step_snapshot_iff:
  assumes s': "s' = state_of (fit_step fw tr verbose epoch step s)"
  shows "((writes (ckpt s') = Suc (writes (ckpt s))) =
           (\<exists>v. valid_log s' = valid_log s @ [v] \<and> float_lt v (best_valid_loss s)))
    \<and> ((\<exists>v. valid_log s' = valid_log s @ [v] \<and> float_lt v (best_valid_loss s)) \<longrightarrow>
           best_valid_loss s' = last (valid_log s') \<and> snapshot (ckpt s') = variables (sess s'))
    \<and> (\<not> (\<exists>v. valid_log s' = valid_log s @ [v] \<and> float_lt v (best_valid_loss s)) \<longrightarrow>
           ckpt s' = ckpt s \<and> best_valid_loss s' = best_valid_loss s)"
  unfolding s'
  by (cases fw tr verbose epoch step s rule: fit_step_cases) simp_all

lemma tracker_inv_step:
  "tracker_inv w0 s \<Longrightarrow> tracker_inv w0 (state_of (fit_step fw tr verbose epoch step s))"
  by (cases fw tr verbose epoch step s rule: fit_step_cases)
    (simp_all add: tracker_inv_def best_seen_append strict_decreases_append)

lemma tracker_inv_fit: "tracker_inv (writes st) (state_of (fit fw tr verbose st))"
proof (rule fit_invariant)
  fix epoch step and s :: "'a fit_state"
  assume "tracker_inv (writes st) s"
  then show "tracker_inv (writes st) (state_of (fit_step fw tr verbose epoch step s))"
    by (rule tracker_inv_step)
next
  from fit_start_state [of fw st] obtain ss where
    "state_of (fit_start fw st) = (fit_setup fw st)\<lparr>sess := ss\<rparr>" ..
  then show "tracker_inv (writes st) (state_of (fit_start fw st))"
    by (simp add: tracker_inv_def fit_setup_def)
qed

lemma fit_epochs_best_not_above:
  "not_above (best_valid_loss (state_of (fit_epochs fw tr verbose es s))) (best_valid_loss s)"
proof (rule fit_epochs_invariant [where P = "\<lambda>x. not_above (best_valid_loss x) (best_valid_loss s)"])
  fix epoch step and x :: "'a fit_state"
  assume "not_above (best_valid_loss x) (best_valid_loss s)"
  with fit_step_best_not_above [of fw tr verbose epoch step x]
  show "not_above (best_valid_loss (state_of (fit_step fw tr verbose epoch step x))) (best_valid_loss s)"
    by (rule not_above_trans)
next
  show "not_above (best_valid_loss s) (best_valid_loss s)" by (simp add: not_above_def)
qed

text \<open>
  C1. The local \<^verbatim>\<open>best_valid_loss\<close> is \<open>+\<infinity>\<close> when the call begins. In every pass through
  the loop body, from any state and whether the pass returns or raises, the best loss
  after the pass is the one before or strictly below it, and the directory receives a
  write exactly when a validation loss was fetched in the pass that is strictly below
  the best loss before it; then that loss becomes the best one and the snapshot stored
  is the session's parameters, and otherwise the directory and the best loss are
  unchanged. Over any number of epochs the best loss does not increase. When the call
  ends, the best loss is the best of the validation losses fetched in the call, and the
  number of writes the directory has received in the call is the number of strict
  decreases among them.
\<close>

theorem best_validation_loss_tracker:
  "best_valid_loss (fit_setup fw st) = PosInf
   \<and> (\<forall>epoch step s s'. s' = state_of (fit_step fw tr verbose epoch step s) \<longrightarrow>
        not_above (best_valid_loss s') (best_valid_loss s)
        \<and> ((writes (ckpt s') = Suc (writes (ckpt s))) =
             (\<exists>v. valid_log s' = valid_log s @ [v] \<and> float_lt v (best_valid_loss s)))
        \<and> ((\<exists>v. valid_log s' = valid_log s @ [v] \<and> float_lt v (best_valid_loss s)) \<longrightarrow>
             best_valid_loss s' = last (valid_log s') \<and> snapshot (ckpt s') = variables (sess s'))
        \<and> (\<not> (\<exists>v. valid_log s' = valid_log s @ [v] \<and> float_lt v (best_valid_loss s)) \<longrightarrow>
             ckpt s' = ckpt s \<and> best_valid_loss s' = best_valid_loss s))
   \<and> (\<forall>es s. not_above (best_valid_loss (state_of (fit_epochs fw tr verbose es s)))
                (best_valid_loss s))
   \<and> best_valid_loss (state_of (fit fw tr verbose st)) =
       best_seen PosInf (valid_log (state_of (fit fw tr verbose st)))
   \<and> writes (ckpt (state_of (fit fw tr verbose st))) =
       writes st + strict_decreases PosInf (valid_log (state_of (fit fw tr verbose st)))"
proof (intro conjI allI impI)
  show "best_valid_loss (fit_setup fw st) = PosInf" by (simp add: fit_setup_def)
next
  fix epoch step and s s' :: "'a fit_state"
  assume s': "s' = state_of (fit_step fw tr verbose epoch step s)"
  from s' show "not_above (best_valid_loss s') (best_valid_loss s)"
    by (simp add: fit_step_best_not_above)
  from fit_step_snapshot_iff [OF s']
  show "(writes (ckpt s') = Suc (writes (ckpt s))) =
             (\<exists>v. valid_log s' = valid_log s @ [v] \<and> float_lt v (best_valid_loss s))"
    by blast
  {
    assume "\<exists>v. valid_log s' = valid_log s @ [v] \<and> float_lt v (best_valid_loss s)"
    with fit_step_snapshot_iff [OF s']
    show "best_valid_loss s' = last (valid_log s')"
      and "snapshot (ckpt s') = variables (sess s')"
      by blast+
  }
  {
    assume "\<not> (\<exists>v. valid_log s' = valid_log s @ [v] \<and> float_lt v (best_valid_loss s))"
    with fit_step_snapshot_iff [OF s']
    show "ckpt s' = ckpt s" and "best_valid_loss s' = best_valid_loss s"
      by blast+
  }
next
  fix es and s :: "'a fit_state"
  show "not_above (best_valid_loss (state_of (fit_epochs fw tr verbose es s))) (best_valid_loss s)"
    by (rule fit_epochs_best_not_above)
next
  from tracker_inv_fit [of st fw tr verbose]
  show "best_valid_loss (state_of (fit fw tr verbose st)) =
       best_seen PosInf (valid_log (state_of (fit fw tr verbose st)))"
    and "writes (ckpt (state_of (fit fw tr verbose st))) =
       writes st + strict_decreases PosInf (valid_log (state_of (fit fw tr verbose st)))"
    by (simp_all add: tracker_inv_def)
qed

theorem best_validation_loss_tracker_witness:
  "best_valid_loss (fit_setup demo_fw empty_store) = PosInf
   \<and> float_lt (Finite 3) (best_valid_loss demo_started)
   \<and> valid_log (state_of (fit_step demo_fw demo_trainer True 0 0 demo_started)) =
       valid_log demo_started @ [Finite 3]
   \<and> writes (ckpt (state_of (fit_step demo_fw demo_trainer True 0 0 demo_started))) =
       Suc (writes (ckpt demo_started))
   \<and> best_valid_loss (state_of (fit_step demo_fw demo_trainer True 0 0 demo_started)) = Finite 3
   \<and> snapshot (ckpt (state_of (fit_step demo_fw demo_trainer True 0 0 demo_started))) = Some 1
   \<and> valid_log (state_of (fit demo_fw demo_trainer True empty_store)) =
       [Finite 3, Finite 1, Finite 1, Finite 1]
   \<and> best_valid_loss (state_of (fit demo_fw demo_trainer True empty_store)) =
       best_seen PosInf [Finite 3, Finite 1, Finite 1, Finite 1]
   \<and> best_seen PosInf [Finite 3, Finite 1, Finite 1, Finite 1] = Finite 1
   \<and> writes (ckpt (state_of (fit demo_fw demo_trainer True empty_store))) =
       writes empty_store + strict_decreases PosInf [Finite 3, Finite 1, Finite 1, Finite 1]
   \<and> strict_decreases PosInf [Finite 3, Finite 1, Finite 1, Finite 1] = 2"
proof -
  note inst = best_validation_loss_tracker [of demo_fw empty_store demo_trainer True]
  let ?s' = "state_of (fit_step demo_fw demo_trainer True 0 0 demo_started)"
  have l0: "valid_log demo_started = []" and b0: "best_valid_loss demo_started = PosInf"
    by (simp_all add: demo_started_def)
  have log: "valid_log ?s' = valid_log demo_started @ [Finite 3]"
    and lt: "float_lt (Finite 3) (best_valid_loss demo_started)"
    by (simp_all add: demo_first_step l0 b0)
  from inst have step:
    "(writes (ckpt ?s') = Suc (writes (ckpt demo_started))) =
       (\<exists>v. valid_log ?s' = valid_log demo_started @ [v]
          \<and> float_lt v (best_valid_loss demo_started))"
    "(\<exists>v. valid_log ?s' = valid_log demo_started @ [v]
          \<and> float_lt v (best_valid_loss demo_started)) \<longrightarrow>
       best_valid_loss ?s' = last (valid_log ?s') \<and> snapshot (ckpt ?s') = variables (sess ?s')"
    by blast+
  from log lt have ex: "\<exists>v. valid_log ?s' = valid_log demo_started @ [v]
          \<and> float_lt v (best_valid_loss demo_started)"
    by blast
  with step have "writes (ckpt ?s') = Suc (writes (ckpt demo_started))"
    and "best_valid_loss ?s' = last (valid_log ?s')"
    and "snapshot (ckpt ?s') = variables (sess ?s')"
    by blast+
  moreover have "last (valid_log ?s') = Finite 3" and "variables (sess ?s') = Some 1"
    by (simp_all add: demo_first_step)
  moreover from inst
  have "best_valid_loss (state_of (fit demo_fw demo_trainer True empty_store)) =
       best_seen PosInf (valid_log (state_of (fit demo_fw demo_trainer True empty_store)))"
    and "writes (ckpt (state_of (fit demo_fw demo_trainer True empty_store))) =
       writes empty_store
         + strict_decreases PosInf (valid_log (state_of (fit demo_fw demo_trainer True empty_store)))"
    and "best_valid_loss (fit_setup demo_fw empty_store) = PosInf"
    by blast+
  moreover have "valid_log (state_of (fit demo_fw demo_trainer True empty_store)) =
       [Finite 3, Finite 1, Finite 1, Finite 1]"
    by (simp add: demo_run)
  ultimately show ?thesis using log lt by simp
qed

subsection \<open>The directory after the call\<close>

lemma union_checkpoint_files: "List.union l checkpoint_files \<noteq> []"
proof
  assume "List.union l checkpoint_files = []"
  then have "set (List.union l checkpoint_files) = set []" by (rule arg_cong)
  then have "set l \<union> set checkpoint_files = {}" by simp
  then show False by (simp add: checkpoint_files_def)
qed

lemma float_lt_PosInf: "float_lt v w \<Longrightarrow> float_lt v PosInf"
  by (cases v; cases w) simp_all

lemma saved_inv_step:
  assumes "saved_inv l0 s"
  shows "saved_inv l0 (state_of (fit_step fw tr verbose epoch step s))"
proof (cases fw tr verbose epoch step s rule: fit_step_cases)
  case (raise e ss c)
  with assms show ?thesis by (simp add: saved_inv_def)
next
  case (skip ss k)
  with assms show ?thesis by (simp add: saved_inv_def)
next
  case (keep v ss c k)
  from assms keep(1) have "best_valid_loss s = PosInf \<longrightarrow> \<not> float_lt v PosInf" by auto
  with assms keep show ?thesis by (auto simp add: saved_inv_def)
next
  case (save v ss c p k)
  from save(1) have "float_lt v PosInf" by (rule float_lt_PosInf)
  with save show ?thesis by (simp add: saved_inv_def union_checkpoint_files)
qed

lemma saved_inv_fit: "saved_inv (listing st) (state_of (fit fw tr verbose st))"
proof (rule fit_invariant)
  fix epoch step and s :: "'a fit_state"
  assume "saved_inv (listing st) s"
  then show "saved_inv (listing st) (state_of (fit_step fw tr verbose epoch step s))"
    by (rule saved_inv_step)
next
  from fit_start_state [of fw st] obtain ss where
    "state_of (fit_start fw st) = (fit_setup fw st)\<lparr>sess := ss\<rparr>" ..
  then show "saved_inv (listing st) (state_of (fit_start fw st))"
    by (simp add: saved_inv_def fit_setup_def)
qed

lemma fit_step_first_reports:
  assumes "fit_step fw tr verbose epoch 0 s = Return () s'"
  shows "valid_log s' \<noteq> []"
proof (cases "update_weights_and_loss fw (sess s)")
  case (Inl e)
  with assms show ?thesis by (simp add: fit_step_def)
next
  case (Inr r)
  obtain l ss where r: "r = (l, ss)" by (cases r)
  let ?s2 = "print_info verbose epoch 0 l (s\<lparr>sess := ss\<rparr>)"
  from assms Inr r have nz: "show_step tr \<noteq> 0"
    by (auto simp: fit_step_def split: if_splits)
  with assms Inr r have v: "validate fw ?s2 = Return () s'"
    by (simp add: fit_step_def)
  show ?thesis
    using v by (cases fw ?s2 rule: validate_cases) auto
qed

lemma fit_step_keeps_reports:
  "valid_log s \<noteq> [] \<Longrightarrow> valid_log (state_of (fit_step fw tr verbose epoch step s)) \<noteq> []"
  by (cases fw tr verbose epoch step s rule: fit_step_cases) simp_all

lemma py_range_pos: "1 \<le> n \<Longrightarrow> py_range n = 0 # [1 ..< nat n]"
  by (simp add: py_range_def upt_conv_Cons)

text \<open>
  A call that returns after at least one epoch of at least one step has passed a report
  step, step 0 of the first epoch, and has fetched a validation loss there.
\<close>

lemma fit_reports:
  assumes ret: "fit fw tr verbose st = Return () s'"
    and ep: "1 \<le> epochs tr" and it: "1 \<le> iterations tr"
  shows "valid_log s' \<noteq> []"
proof -
  from ret obtain s0 where
    loop: "fit_epochs fw tr verbose (py_range (epochs tr)) s0 = Return () s'"
    by (auto simp: fit_def split: outcome.splits)
  from loop py_range_pos [OF ep] obtain s1 where
    first: "fit_steps fw tr verbose 0 (py_range (iterations tr)) s0 = Return () s1"
    and rest: "fit_epochs fw tr verbose [1 ..< nat (epochs tr)] s1 = Return () s'"
    by (auto split: outcome.splits)
  from first py_range_pos [OF it] obtain s2 where
    one: "fit_step fw tr verbose 0 0 s0 = Return () s2"
    and more: "fit_steps fw tr verbose 0 [1 ..< nat (iterations tr)] s2 = Return () s1"
    by (auto split: outcome.splits)
  from one have "valid_log s2 \<noteq> []" by (rule fit_step_first_reports)
  have "valid_log (state_of (fit_steps fw tr verbose 0 [1 ..< nat (iterations tr)] s2)) \<noteq> []"
    using fit_step_keeps_reports \<open>valid_log s2 \<noteq> []\<close>
    by (rule fit_steps_invariant [where P = "\<lambda>s. valid_log s \<noteq> []"])
  with more have "valid_log s1 \<noteq> []" by simp
  have "valid_log (state_of (fit_epochs fw tr verbose [1 ..< nat (epochs tr)] s1)) \<noteq> []"
    using fit_step_keeps_reports \<open>valid_log s1 \<noteq> []\<close>
    by (rule fit_epochs_invariant [where P = "\<lambda>s. valid_log s \<noteq> []"])
  with rest show ?thesis by simp
qed

text \<open>
  C9, as amended. When \<^verbatim>\<open>fit\<close> returns, the checkpoint directory is not empty exactly
  when it was not empty before the call or at least one of the validation losses
  fetched at the report steps was strictly below \<open>+\<infinity>\<close>, that is neither NaN nor \<open>+\<infinity>\<close>.
  In particular a run with a report step whose validation loss is below \<open>+\<infinity>\<close> leaves
  a directory that is not empty.
\<close>

theorem checkpoint_directory_after_fit:
  assumes "fit fw tr verbose st = Return () s'"
  shows "(listing (ckpt s') \<noteq> []) =
           (listing st \<noteq> [] \<or> (\<exists>v \<in> set (valid_log s'). float_lt v PosInf))"
proof -
  from saved_inv_fit [of st fw tr verbose] assms have "saved_inv (listing st) s'" by simp
  then show ?thesis by (auto simp: saved_inv_def)
qed

theorem checkpoint_directory_after_fit_witness:
  "fit demo_fw demo_trainer True empty_store =
     Return ()
       \<lparr>ckpt = \<lparr>listing = checkpoint_files, snapshot = Some 3, writes = 2\<rparr>,
        sess = \<lparr>variables = Some 6, train_pos = Some 7, valid_pos = Some 4\<rparr>,
        best_valid_loss = Finite 1,
        valid_log = [Finite 3, Finite 1, Finite 1, Finite 1],
        console = [(1, 1, Finite 1, PosInf), (1, 3, Finite 3, Finite 3),
                   (2, 1, Finite 4, Finite 1), (2, 3, Finite 6, Finite 1)]\<rparr>
   \<and> float_lt (Finite 3) PosInf
   \<and> checkpoint_files \<noteq> []"
  using checkpoint_directory_after_fit [OF demo_run]
  by (simp add: demo_run)

text \<open>
  C9 as stated fails: with a validation loss that is NaN at every report step, a run of
  two epochs of three steps from an empty directory passes four report steps, returns,
  and leaves the directory empty, since \<^verbatim>\<open>valid_loss < best_valid_loss\<close> is false for NaN.
\<close>

theorem fit_leaves_directory_empty_on_nan:
  "1 \<le> epochs demo_trainer \<and> 1 \<le> iterations demo_trainer
   \<and> returned (fit nan_fw demo_trainer False empty_store) = Some ()
   \<and> valid_log (state_of (fit nan_fw demo_trainer False empty_store)) = [NaN, NaN, NaN, NaN]
   \<and> listing (ckpt (state_of (fit nan_fw demo_trainer False empty_store))) = []"
proof -
  have "1 \<le> epochs demo_trainer" and "1 \<le> iterations demo_trainer"
    by (simp_all add: demo_trainer_def)
  then show ?thesis by (simp add: nan_run)
qed

section \<open>Properties of prediction\<close>

text \<open>
  C4. For an array whose element type is not \<^verbatim>\<open>float32\<close>, \<^verbatim>\<open>predict_prob\<close> raises the
  assertion error and leaves the directory as it was, whatever the framework and the
  directory are: nothing of the session or of the checkpoint is consulted. For an array
  of \<^verbatim>\<open>float32\<close> it never raises the assertion error.
\<close>

theorem predict_prob_dtype_check:
  "(dtype img \<noteq> Float32 \<longrightarrow> predict_prob fw img st = Raise AssertionError st)
   \<and> (dtype img = Float32 \<longrightarrow> raised (predict_prob fw img st) \<noteq> Some AssertionError)"
  by (simp add: predict_prob_def split: sum.splits prod.splits)

theorem predict_prob_dtype_check_witness:
  "dtype \<lparr>dtype = Float64, contents = (0::nat)\<rparr> \<noteq> Float32
   \<and> predict_prob demo_fw \<lparr>dtype = Float64, contents = 0\<rparr> saved_store = Raise AssertionError saved_store
   \<and> dtype \<lparr>dtype = Float32, contents = (0::nat)\<rparr> = Float32
   \<and> raised (predict_prob demo_fw \<lparr>dtype = Float32, contents = 0\<rparr> saved_store) \<noteq> Some AssertionError"
  using predict_prob_dtype_check [of "\<lparr>dtype = Float64, contents = 0\<rparr>" demo_fw saved_store]
    predict_prob_dtype_check [of "\<lparr>dtype = Float32, contents = 0\<rparr>" demo_fw saved_store]
  by simp

subsection \<open>The argmax of a row\<close>

lemma float_le_refl: "a \<noteq> NaN \<Longrightarrow> float_le a a"
  by (cases a) simp_all

lemma not_float_le: "a \<noteq> NaN \<Longrightarrow> b \<noteq> NaN \<Longrightarrow> (\<not> float_le a b) = float_lt b a"
  by (cases a; cases b) auto

lemma float_le_lt_trans: "float_le a b \<Longrightarrow> float_lt b c \<Longrightarrow> float_lt a c"
  by (cases a; cases b; cases c) simp_all

lemma float_lt_le: "float_lt a b \<Longrightarrow> float_le a b"
  by (cases a; cases b) simp_all

lemma argmax_scan_first_max:
  assumes "NaN \<notin> set xs" and "mp \<noteq> NaN"
  shows "(argmax_scan xs i mp mi = mi \<and> (\<forall>x \<in> set xs. float_le x mp))
       \<or> (\<exists>k < length xs. argmax_scan xs i mp mi = i + k \<and> float_lt mp (xs ! k)
             \<and> (\<forall>x \<in> set xs. float_le x (xs ! k)) \<and> (\<forall>j < k. float_lt (xs ! j) (xs ! k)))"
  using assms
proof (induction xs arbitrary: i mp mi)
  case Nil
  then show ?case by simp
next
  case (Cons x xs)
  from Cons.prems have x: "x \<noteq> NaN" and xs: "NaN \<notin> set xs" by auto
  show ?case
  proof (cases "float_le x mp")
    case True
    from Cons.IH [OF xs Cons.prems(2), of "Suc i" mi]
    show ?thesis
    proof (elim disjE conjE exE)
      assume "argmax_scan xs (Suc i) mp mi = mi" and "\<forall>x \<in> set xs. float_le x mp"
      with True show ?thesis by simp
    next
      fix k assume k: "k < length xs" "argmax_scan xs (Suc i) mp mi = Suc i + k"
        "float_lt mp (xs ! k)" "\<forall>x \<in> set xs. float_le x (xs ! k)"
        "\<forall>j < k. float_lt (xs ! j) (xs ! k)"
      from True k(3) have xlt: "float_lt x (xs ! k)" by (rule float_le_lt_trans)
      have "Suc k < length (x # xs)" using k(1) by simp
      moreover have "argmax_scan (x # xs) i mp mi = i + Suc k" using True k(2) by simp
      moreover have "float_lt mp ((x # xs) ! Suc k)" using k(3) by simp
      moreover have "\<forall>y \<in> set (x # xs). float_le y ((x # xs) ! Suc k)"
        using k(4) xlt by (simp add: float_lt_le)
      moreover have "\<forall>j < Suc k. float_lt ((x # xs) ! j) ((x # xs) ! Suc k)"
        using k(5) xlt by (simp add: nth_Cons') 
      ultimately show ?thesis by blast
    qed
  next
    case False
    with x Cons.prems(2) have lt: "float_lt mp x" by (simp add: not_float_le)
    from Cons.IH [OF xs x, of "Suc i" i]
    show ?thesis
    proof (elim disjE conjE exE)
      assume a: "argmax_scan xs (Suc i) x i = i" "\<forall>y \<in> set xs. float_le y x"
      have "0 < length (x # xs)" by simp
      moreover have "argmax_scan (x # xs) i mp mi = i + 0" using False x a(1) by simp
      moreover have "float_lt mp ((x # xs) ! 0)" using lt by simp
      moreover have "\<forall>y \<in> set (x # xs). float_le y ((x # xs) ! 0)"
        using a(2) x by (simp add: float_le_refl)
      moreover have "\<forall>j < (0::nat). float_lt ((x # xs) ! j) ((x # xs) ! 0)" by simp
      ultimately show ?thesis by blast
    next
      fix k assume k: "k < length xs" "argmax_scan xs (Suc i) x i = Suc i + k"
        "float_lt x (xs ! k)" "\<forall>y \<in> set xs. float_le y (xs ! k)"
        "\<forall>j < k. float_lt (xs ! j) (xs ! k)"
      from lt k(3) have mlt: "float_lt mp (xs ! k)" by (rule float_lt_trans)
      have "Suc k < length (x # xs)" using k(1) by simp
      moreover have "argmax_scan (x # xs) i mp mi = i + Suc k" using False x k(2) by simp
      moreover have "float_lt mp ((x # xs) ! Suc k)" using mlt by simp
      moreover have "\<forall>y \<in> set (x # xs). float_le y ((x # xs) ! Suc k)"
        using k(4) k(3) by (simp add: float_lt_le)
      moreover have "\<forall>j < Suc k. float_lt ((x # xs) ! j) ((x # xs) ! Suc k)"
        using k(5) k(3) by (simp add: nth_Cons')
      ultimately show ?thesis by blast
    qed
  qed
qed

text \<open>On a row without NaN, \<open>np_argmax\<close> is the index of the first maximum.\<close>

lemma np_argmax_first_max:
  assumes "np_argmax row = Inr j" and "NaN \<notin> set row"
  shows "j < length row \<and> (\<forall>k < length row. float_le (row ! k) (row ! j))
     \<and> (\<forall>k < j. float_lt (row ! k) (row ! j))"
proof (cases row)
  case Nil
  with assms(1) show ?thesis by simp
next
  case (Cons x xs)
  with assms have x: "x \<noteq> NaN" and xs: "NaN \<notin> set xs"
    and j: "j = argmax_scan xs 1 x 0"
    by auto
  from argmax_scan_first_max [OF xs x, of 1 0]
  show ?thesis
  proof (elim disjE conjE exE)
    assume a: "argmax_scan xs 1 x 0 = 0" "\<forall>y \<in> set xs. float_le y x"
    from a(2) x have "\<forall>y \<in> set (x # xs). float_le y x" by (simp add: float_le_refl)
    then have "\<forall>k < length (x # xs). float_le ((x # xs) ! k) x"
      by (metis nth_mem)
    with a(1) j Cons show ?thesis by simp
  next
    fix k assume k: "k < length xs" "argmax_scan xs 1 x 0 = 1 + k"
      "float_lt x (xs ! k)" "\<forall>y \<in> set xs. float_le y (xs ! k)"
      "\<forall>i < k. float_lt (xs ! i) (xs ! k)"
    from k(4) k(3) have "\<forall>y \<in> set (x # xs). float_le y (xs ! k)" by (simp add: float_lt_le)
    then have all: "\<forall>i < length (x # xs). float_le ((x # xs) ! i) (xs ! k)"
      by (metis nth_mem)
    have "\<forall>i < Suc k. float_lt ((x # xs) ! i) (xs ! k)"
      using k(5) k(3) by (simp add: nth_Cons')
    with all k(1,2) j Cons show ?thesis by simp
  qed
qed

lemma np_argmax_axis1_Inr:
  "[] \<notin> set rows \<Longrightarrow>
     \<exists>js. np_argmax_axis1 rows = Inr js \<and> length js = length rows
       \<and> (\<forall>i < length rows. np_argmax (rows ! i) = Inr (js ! i))"
proof (induction rows)
  case Nil
  show ?case by simp
next
  case (Cons row rows)
  from Cons.prems have "row \<noteq> []" and "[] \<notin> set rows" by auto
  from Cons.IH [OF this(2)] obtain js where
    js: "np_argmax_axis1 rows = Inr js" "length js = length rows"
      "\<forall>i < length rows. np_argmax (rows ! i) = Inr (js ! i)"
    by blast
  from \<open>row \<noteq> []\<close> obtain j where j: "np_argmax row = Inr j"
    by (cases row) auto
  have "\<forall>i < length (row # rows). np_argmax ((row # rows) ! i) = Inr ((j # js) ! i)"
  proof (intro allI impI)
    fix i assume "i < length (row # rows)"
    with j js(3) show "np_argmax ((row # rows) ! i) = Inr ((j # js) ! i)"
      by (cases i) auto
  qed
  with j js(1,2) show ?case by simp
qed

lemma np_argmax_axis1_Inl:
  "[] \<in> set rows \<Longrightarrow> np_argmax_axis1 rows = Inl ValueError"
proof (induction rows)
  case Nil
  then show ?case by simp
next
  case (Cons row rows)
  show ?case
  proof (cases "row = []")
    case True
    then show ?thesis by simp
  next
    case False
    with Cons.prems have "[] \<in> set rows" by auto
    then have "np_argmax_axis1 rows = Inl ValueError" by (rule Cons.IH)
    with False show ?thesis by (cases row) auto
  qed
qed

text \<open>
  C3. In one and the same state of the directory and of the framework, what \<^verbatim>\<open>predict\<close>
  does is determined by what \<^verbatim>\<open>predict_prob\<close> does: it raises what \<^verbatim>\<open>predict_prob\<close>
  raises, and when \<^verbatim>\<open>predict_prob\<close> returns a batch of rows it returns one 32-bit
  integer for each row, the argmax of that row (a row with no entry makes the argmax
  raise). The directory is left as \<^verbatim>\<open>predict_prob\<close> leaves it.
\<close>

theorem predict_is_argmax_of_predict_prob:
  "(\<forall>e st'. predict_prob fw img st = Raise e st' \<longrightarrow> predict fw img st = Raise e st')
   \<and> (\<forall>probs st'. predict_prob fw img st = Return probs st' \<longrightarrow>
        ([] \<in> set probs \<longrightarrow> predict fw img st = Raise ValueError st')
        \<and> ([] \<notin> set probs \<longrightarrow>
             (\<exists>classes. predict fw img st = Return classes st'
                \<and> length classes = length probs
                \<and> (\<forall>i < length probs.
                      map_sum id astype_int32 (np_argmax (probs ! i)) = Inr (classes ! i)))))"
proof (intro conjI allI impI)
  fix e st' assume "predict_prob fw img st = Raise e st'"
  then show "predict fw img st = Raise e st'" by (simp add: predict_def)
next
  fix probs st' assume "predict_prob fw img st = Return probs st'" and "[] \<in> set probs"
  then show "predict fw img st = Raise ValueError st'"
    by (simp add: predict_def np_argmax_axis1_Inl)
next
  fix probs st' assume p: "predict_prob fw img st = Return probs st'" and "[] \<notin> set probs"
  from np_argmax_axis1_Inr [OF this(2)] obtain js where
    js: "np_argmax_axis1 probs = Inr js" "length js = length probs"
      "\<forall>i < length probs. np_argmax (probs ! i) = Inr (js ! i)"
    by blast
  from p js(1) have "predict fw img st = Return (map astype_int32 js) st'"
    by (simp add: predict_def)
  moreover from js(2) have "length (map astype_int32 js) = length probs" by simp
  moreover from js(2,3) have "\<forall>i < length probs.
      map_sum id astype_int32 (np_argmax (probs ! i)) = Inr (map astype_int32 js ! i)"
    by simp
  ultimately show "\<exists>classes. predict fw img st = Return classes st'
      \<and> length classes = length probs
      \<and> (\<forall>i < length probs.
            map_sum id astype_int32 (np_argmax (probs ! i)) = Inr (classes ! i))"
    by blast
qed

theorem predict_is_argmax_of_predict_prob_witness:
  "predict_prob demo_fw \<lparr>dtype = Float32, contents = 0\<rparr> saved_store =
     Return [[Finite (1 / 4), Finite (3 / 4)], [Finite (1 / 2), Finite (1 / 2)]] saved_store
   \<and> [] \<notin> set [[Finite (1 / 4), Finite (3 / 4)], [Finite (1 / 2), Finite (1 / 2)]]
   \<and> predict demo_fw \<lparr>dtype = Float32, contents = 0\<rparr> saved_store = Return [1, 0] saved_store
   \<and> np_argmax [Finite (1 / 4), Finite (3 / 4)] = Inr 1
   \<and> np_argmax [Finite (1 / 2), Finite (1 / 2)] = Inr 0
   \<and> predict_prob demo_fw \<lparr>dtype = Float64, contents = 0\<rparr> saved_store =
       Raise AssertionError saved_store
   \<and> predict demo_fw \<lparr>dtype = Float64, contents = 0\<rparr> saved_store =
       Raise AssertionError saved_store
   \<and> predict_prob no_class_fw \<lparr>dtype = Float32, contents = 0\<rparr> saved_store =
       Return [[]] saved_store
   \<and> predict no_class_fw \<lparr>dtype = Float32, contents = 0\<rparr> saved_store =
       Raise ValueError saved_store"
proof -
  let ?img = "\<lparr>dtype = Float32, contents = (0::nat)\<rparr>"
  let ?bad = "\<lparr>dtype = Float64, contents = (0::nat)\<rparr>"
  let ?probs = "[[Finite (1 / 4), Finite (3 / 4)], [Finite (1 / 2), Finite (1 / 2)]]"
  have p: "predict_prob demo_fw ?img saved_store = Return ?probs saved_store"
    by (simp add: predict_prob_def saved_store_def checkpoint_files_def saver_restore_def
        new_session_def tf_prediction_def demo_fw_def)
  have ne: "[] \<notin> set ?probs" by simp
  from predict_is_argmax_of_predict_prob [of demo_fw ?img saved_store] p ne
  obtain classes where c: "predict demo_fw ?img saved_store = Return classes saved_store"
    "length classes = length ?probs"
    "\<forall>i < length ?probs. map_sum id astype_int32 (np_argmax (?probs ! i)) = Inr (classes ! i)"
    by blast
  have "0 < length ?probs" and "1 < length ?probs" by simp_all
  with c(3) have "map_sum id astype_int32 (np_argmax (?probs ! 0)) = Inr (classes ! 0)"
    and "map_sum id astype_int32 (np_argmax (?probs ! 1)) = Inr (classes ! 1)"
    by blast+
  then have "classes ! 0 = 1" "classes ! 1 = 0"
    by (simp_all add: astype_int32_def)
  with c(2) have "classes = [1, 0]"
    by (cases classes; cases "tl classes"; cases "tl (tl classes)") auto
  with c(1) have good: "predict demo_fw ?img saved_store = Return [1, 0] saved_store" by simp
  have q: "predict_prob demo_fw ?bad saved_store = Raise AssertionError saved_store"
    by (simp add: predict_prob_def)
  with predict_is_argmax_of_predict_prob [of demo_fw ?bad saved_store]
  have bad: "predict demo_fw ?bad saved_store = Raise AssertionError saved_store" by blast
  have r: "predict_prob no_class_fw ?img saved_store = Return [[]] saved_store"
    by (simp add: predict_prob_def saved_store_def checkpoint_files_def saver_restore_def
        new_session_def tf_prediction_def no_class_fw_def)
  have "[] \<in> set [[] :: pyfloat list]" by simp
  with r predict_is_argmax_of_predict_prob [of no_class_fw ?img saved_store]
  have none: "predict no_class_fw ?img saved_store = Raise ValueError saved_store" by blast
  from p ne good q bad r none show ?thesis by simp
qed

section \<open>Restore or initialize\<close>

lemma get_accuracy_via_session:
  "accuracy_session fw ii st1 = accuracy_session fw ii st2 \<Longrightarrow>
     returned (get_accuracy fw ii acc_t n st1) = returned (get_accuracy fw ii acc_t n st2)
     \<and> raised (get_accuracy fw ii acc_t n st1) = raised (get_accuracy fw ii acc_t n st2)"
  by (simp add: get_accuracy_def split: sum.splits)

text \<open>
  C7. In \<^verbatim>\<open>get_accuracy\<close> and in \<^verbatim>\<open>predict_prob\<close> the listing of the directory alone
  decides how the session gets its parameters. On an empty listing \<^verbatim>\<open>get_accuracy\<close>
  averages the runs of the tensor in a session whose variables are the freshly
  initialized ones, whatever is stored, and \<^verbatim>\<open>predict_prob\<close> returns the prediction for
  the fresh parameters. On a non-empty listing the parameters are restored from the
  prefix: the runs are averaged, and the prediction is made, with the stored snapshot,
  and the call raises the framework's error when nothing is stored under the prefix. So
  two directories that are both empty give the same result, and so do two non-empty ones
  with the same snapshot, whatever files they list.
\<close>

theorem restore_decided_by_listing:
  "(listing st = [] \<longrightarrow>
      get_accuracy fw ii acc_t n st =
        (case average_runs fw acc_t n
                ((ii new_session)\<lparr>variables := Some (fresh_variables fw)\<rparr>) of
           Inl e \<Rightarrow> Raise e st
         | Inr r \<Rightarrow> Return r st))
   \<and> (listing st \<noteq> [] \<longrightarrow>
      get_accuracy fw ii acc_t n st =
        (case snapshot st of
           None \<Rightarrow> Raise (TfError RestoreFailed) st
         | Some p \<Rightarrow>
             (case average_runs fw acc_t n ((ii new_session)\<lparr>variables := Some p\<rparr>) of
                Inl e \<Rightarrow> Raise e st
              | Inr r \<Rightarrow> Return r st)))
   \<and> (listing st = [] \<and> listing st' = [] \<longrightarrow>
      returned (get_accuracy fw ii acc_t n st) = returned (get_accuracy fw ii acc_t n st')
      \<and> raised (get_accuracy fw ii acc_t n st) = raised (get_accuracy fw ii acc_t n st'))
   \<and> (listing st \<noteq> [] \<and> listing st' \<noteq> [] \<and> snapshot st = snapshot st' \<longrightarrow>
      returned (get_accuracy fw ii acc_t n st) = returned (get_accuracy fw ii acc_t n st')
      \<and> raised (get_accuracy fw ii acc_t n st) = raised (get_accuracy fw ii acc_t n st'))
   \<and> (dtype img = Float32 \<and> listing st = [] \<longrightarrow>
      predict_prob fw img st = Return (softmax_of fw (fresh_variables fw) (contents img)) st)
   \<and> (dtype img = Float32 \<and> listing st \<noteq> [] \<longrightarrow>
      predict_prob fw img st =
        (case snapshot st of
           None \<Rightarrow> Raise (TfError RestoreFailed) st
         | Some p \<Rightarrow> Return (softmax_of fw p (contents img)) st))"
proof (intro conjI impI)
  assume "listing st = []"
  then show "get_accuracy fw ii acc_t n st =
        (case average_runs fw acc_t n
                ((ii new_session)\<lparr>variables := Some (fresh_variables fw)\<rparr>) of
           Inl e \<Rightarrow> Raise e st
         | Inr r \<Rightarrow> Return r st)"
    by (simp add: get_accuracy_def accuracy_session_empty)
next
  assume "listing st \<noteq> []"
  then show "get_accuracy fw ii acc_t n st =
        (case snapshot st of
           None \<Rightarrow> Raise (TfError RestoreFailed) st
         | Some p \<Rightarrow>
             (case average_runs fw acc_t n ((ii new_session)\<lparr>variables := Some p\<rparr>) of
                Inl e \<Rightarrow> Raise e st
              | Inr r \<Rightarrow> Return r st))"
    by (simp add: get_accuracy_def accuracy_session_nonempty split: option.splits)
next
  assume a: "listing st = [] \<and> listing st' = []"
  then have eq: "accuracy_session fw ii st = accuracy_session fw ii st'"
    by (simp add: accuracy_session_empty)
  from get_accuracy_via_session [OF eq]
  show "returned (get_accuracy fw ii acc_t n st) = returned (get_accuracy fw ii acc_t n st')"
    and "raised (get_accuracy fw ii acc_t n st) = raised (get_accuracy fw ii acc_t n st')"
    by simp_all
next
  assume a: "listing st \<noteq> [] \<and> listing st' \<noteq> [] \<and> snapshot st = snapshot st'"
  then have eq: "accuracy_session fw ii st = accuracy_session fw ii st'"
    by (simp add: accuracy_session_nonempty)
  from get_accuracy_via_session [OF eq]
  show "returned (get_accuracy fw ii acc_t n st) = returned (get_accuracy fw ii acc_t n st')"
    and "raised (get_accuracy fw ii acc_t n st) = raised (get_accuracy fw ii acc_t n st')"
    by simp_all
next
  assume "dtype img = Float32 \<and> listing st = []"
  then show "predict_prob fw img st =
      Return (softmax_of fw (fresh_variables fw) (contents img)) st"
    by (simp add: predict_prob_def global_variables_initializer_def new_session_def
        tf_prediction_def)
next
  assume "dtype img = Float32 \<and> listing st \<noteq> []"
  then show "predict_prob fw img st =
        (case snapshot st of
           None \<Rightarrow> Raise (TfError RestoreFailed) st
         | Some p \<Rightarrow> Return (softmax_of fw p (contents img)) st)"
    by (simp add: predict_prob_def saver_restore_def new_session_def tf_prediction_def
        split: option.splits)
qed

text \<open>
  The runs of the validation accuracy averaged in a session of the small framework:
  with the fresh parameters and with the parameters 7.
\<close>

lemma demo_average_runs:
  "average_runs demo_fw (valid_accuracy demo_fw) 3
     ((iterator_valid_initializer new_session)\<lparr>variables := Some p\<rparr>) =
   Inr (if p = 7 then Finite 1 else Finite (1 / 2))"
  by (simp add: average_runs_def py_range_def upt_rec valid_accuracy_def demo_fw_def
      demo_round_def new_session_def iterator_valid_initializer_def float_div_int_def)

theorem restore_decided_by_listing_witness:
  "listing empty_store = []
   \<and> get_accuracy demo_fw iterator_valid_initializer (valid_accuracy demo_fw) 3 empty_store =
       Return (Finite (1 / 2)) empty_store
   \<and> listing saved_store \<noteq> [] \<and> snapshot saved_store = Some 7
   \<and> get_accuracy demo_fw iterator_valid_initializer (valid_accuracy demo_fw) 3 saved_store =
       Return (Finite 1) saved_store
   \<and> listing cleared_store = []
   \<and> returned (get_accuracy demo_fw iterator_valid_initializer (valid_accuracy demo_fw) 3
                  empty_store) =
       returned (get_accuracy demo_fw iterator_valid_initializer (valid_accuracy demo_fw) 3
                  cleared_store)
   \<and> listing saved_and_stray_store \<noteq> []
   \<and> snapshot saved_store = snapshot saved_and_stray_store
   \<and> returned (get_accuracy demo_fw iterator_valid_initializer (valid_accuracy demo_fw) 3
                  saved_store) =
       returned (get_accuracy demo_fw iterator_valid_initializer (valid_accuracy demo_fw) 3
                  saved_and_stray_store)
   \<and> listing stray_store \<noteq> [] \<and> snapshot stray_store = None
   \<and> get_accuracy demo_fw iterator_valid_initializer (valid_accuracy demo_fw) 3 stray_store =
       Raise (TfError RestoreFailed) stray_store
   \<and> dtype \<lparr>dtype = Float32, contents = (0::nat)\<rparr> = Float32
   \<and> predict_prob demo_fw \<lparr>dtype = Float32, contents = 0\<rparr> empty_store =
       Return (softmax_of demo_fw 0 0) empty_store
   \<and> predict_prob demo_fw \<lparr>dtype = Float32, contents = 0\<rparr> saved_store =
       Return (softmax_of demo_fw 7 0) saved_store
   \<and> predict_prob demo_fw \<lparr>dtype = Float32, contents = 0\<rparr> stray_store =
       Raise (TfError RestoreFailed) stray_store"
proof -
  let ?img = "\<lparr>dtype = Float32, contents = (0::nat)\<rparr>"
  let ?vi = "iterator_valid_initializer :: int session \<Rightarrow> int session"
  let ?acc = "valid_accuracy demo_fw"
  have e: "listing empty_store = []" and e': "listing cleared_store = []"
    by (simp_all add: empty_store_def cleared_store_def)
  have s: "listing saved_store \<noteq> []" and s': "listing saved_and_stray_store \<noteq> []"
    and ss': "snapshot saved_store = snapshot saved_and_stray_store"
    and s7: "snapshot saved_store = Some 7"
    by (simp_all add: saved_store_def saved_and_stray_store_def checkpoint_files_def)
  have t: "listing stray_store \<noteq> []" and t': "snapshot stray_store = None"
    by (simp_all add: stray_store_def)
  have d: "dtype ?img = Float32" by simp
  have fresh: "fresh_variables demo_fw = 0" by (simp add: demo_fw_def)
  note on_empty = restore_decided_by_listing [of empty_store demo_fw ?vi ?acc 3 cleared_store ?img]
  note on_saved = restore_decided_by_listing
      [of saved_store demo_fw ?vi ?acc 3 saved_and_stray_store ?img]
  note on_stray = restore_decided_by_listing [of stray_store demo_fw ?vi ?acc 3 stray_store ?img]
  have a1: "get_accuracy demo_fw ?vi ?acc 3 empty_store = Return (Finite (1 / 2)) empty_store"
    using on_empty [THEN conjunct1, THEN mp, OF e] by (simp add: fresh demo_average_runs)
  have a2: "get_accuracy demo_fw ?vi ?acc 3 saved_store = Return (Finite 1) saved_store"
    using on_saved [THEN conjunct2, THEN conjunct1, THEN mp, OF s]
    by (simp add: s7 demo_average_runs)
  have a3: "returned (get_accuracy demo_fw ?vi ?acc 3 empty_store) =
       returned (get_accuracy demo_fw ?vi ?acc 3 cleared_store)"
    by (rule on_empty [THEN conjunct2, THEN conjunct2, THEN conjunct1, THEN mp,
          OF conjI [OF e e'], THEN conjunct1])
  have a4: "returned (get_accuracy demo_fw ?vi ?acc 3 saved_store) =
       returned (get_accuracy demo_fw ?vi ?acc 3 saved_and_stray_store)"
    by (rule on_saved [THEN conjunct2, THEN conjunct2, THEN conjunct2, THEN conjunct1, THEN mp,
          OF conjI [OF s conjI [OF s' ss']], THEN conjunct1])
  have a5: "get_accuracy demo_fw ?vi ?acc 3 stray_store =
       Raise (TfError RestoreFailed) stray_store"
    using on_stray [THEN conjunct2, THEN conjunct1, THEN mp, OF t] by (simp add: t')
  have a6: "predict_prob demo_fw ?img empty_store = Return (softmax_of demo_fw 0 0) empty_store"
    using on_empty [THEN conjunct2, THEN conjunct2, THEN conjunct2, THEN conjunct2,
          THEN conjunct1, THEN mp, OF conjI [OF d e]]
    by (simp add: fresh)
  have a7: "predict_prob demo_fw ?img saved_store = Return (softmax_of demo_fw 7 0) saved_store"
    using on_saved [THEN conjunct2, THEN conjunct2, THEN conjunct2, THEN conjunct2,
          THEN conjunct2, THEN mp, OF conjI [OF d s]]
    by (simp add: s7)
  have a8: "predict_prob demo_fw ?img stray_store = Raise (TfError RestoreFailed) stray_store"
    using on_stray [THEN conjunct2, THEN conjunct2, THEN conjunct2, THEN conjunct2,
          THEN conjunct2, THEN mp, OF conjI [OF d t]]
    by (simp add: t')
  show ?thesis
    by (intro conjI) (rule e e' s s' ss' s7 t t' d a1 a2 a3 a4 a5 a6 a7 a8)+
qed

end
